theory Spec2Isabelle
  imports Main "HOL-Library.Sublist"
begin

section \<open>JavaScript string primitives\<close>

text \<open>
  A JavaScript string is a sequence of UTF-16 code units. It is modelled as a
  \<open>string\<close> (a list of \<open>char\<close>), each \<open>char\<close> standing for a code unit below 256;
  \<open>length\<close> is the \<open>.length\<close> of the source. The classes below are the ones of
  ECMAScript restricted to that range: \<open>\s\<close> and \<open>trim\<close> use WhiteSpace and
  LineTerminator (tab, LF, VT, FF, CR, space, NBSP), the dot of a regular expression
  excludes the line terminators LF and CR, \<open>\d\<close> is 0-9 and \<open>\w\<close> is
  A-Z, a-z, 0-9 and the underscore.
\<close>

definition isWhiteSpace :: "char \<Rightarrow> bool" where
  "isWhiteSpace c = (c \<in> set [CHR 0x09, CHR 0x0A, CHR 0x0B, CHR 0x0C, CHR 0x0D, CHR 0x20, CHR 0xA0])"

definition isLineTerminator :: "char \<Rightarrow> bool" where
  "isLineTerminator c = (c = CHR 0x0A \<or> c = CHR 0x0D)"

definition isDigit :: "char \<Rightarrow> bool" where
  "isDigit c = (let n = (of_char c :: nat) in 48 \<le> n \<and> n \<le> 57)"

definition isWordChar :: "char \<Rightarrow> bool" where
  "isWordChar c = (let n = (of_char c :: nat) in
     (48 \<le> n \<and> n \<le> 57) \<or> (65 \<le> n \<and> n \<le> 90) \<or> (97 \<le> n \<and> n \<le> 122) \<or> n = 95)"

text \<open>\<open>String.prototype.trim\<close>: white space removed from both ends.\<close>

definition js_trim :: "string \<Rightarrow> string" where
  "js_trim s = rev (dropWhile isWhiteSpace (rev (dropWhile isWhiteSpace s)))"

text \<open>\<open>String.prototype.toLowerCase\<close> on code units below 256: A-Z and the
  Latin-1 capitals (0xC0-0xDE without the multiplication sign 0xD7) move up by 32,
  which sets bit 5 (it is clear in both ranges).\<close>

definition lowerChar :: "char \<Rightarrow> char" where
  "lowerChar c = (let n = (of_char c :: nat) in
     if (65 \<le> n \<and> n \<le> 90) \<or> (192 \<le> n \<and> n \<le> 222 \<and> n \<noteq> 215)
     then (case c of Char b0 b1 b2 b3 b4 b5 b6 b7 \<Rightarrow> Char b0 b1 b2 b3 b4 True b6 b7)
     else c)"

definition js_toLowerCase :: "string \<Rightarrow> string" where
  "js_toLowerCase s = map lowerChar s"

text \<open>\<open>s.includes(sub)\<close>: \<open>sub\<close> occurs in \<open>s\<close> at some position.\<close>

fun js_includes :: "string \<Rightarrow> string \<Rightarrow> bool" where
  "js_includes [] sub = (sub = [])"
| "js_includes (c # cs) sub = (prefix sub (c # cs) \<or> js_includes cs sub)"

text \<open>\<open>s.replace(pat, rep)\<close> with a string pattern: the first occurrence only.\<close>

fun js_replace :: "string \<Rightarrow> string \<Rightarrow> string \<Rightarrow> string" where
  "js_replace [] pat rep = (if pat = [] then rep else [])"
| "js_replace (c # cs) pat rep =
     (if prefix pat (c # cs) then rep @ drop (length pat) (c # cs)
      else c # js_replace cs pat rep)"

text \<open>\<open>s.split("\n")\<close>: the pieces between line feeds; never the empty list.\<close>

fun js_split_lines :: "string \<Rightarrow> string list" where
  "js_split_lines [] = [[]]"
| "js_split_lines (c # cs) =
     (if c = CHR 0x0A then [] # js_split_lines cs
      else (case js_split_lines cs of
              [] \<Rightarrow> [[c]]
            | l # ls \<Rightarrow> (c # l) # ls))"

section \<open>Problems and test cases\<close>

text \<open>A test case as the parsers build it. The LeetCode parser sets no
  \<open>explanation\<close> field (\<open>None\<close>); the paste parser always sets one.\<close>

record test_case =
  tc_id :: nat
  tc_input :: string
  expectedOutput :: string
  explanation :: "string option"

subsection \<open>The LeetCode test-case parser (\<open>parseTestCases\<close>)\<close>

text \<open>
  \<^verbatim>\<open>
  for (let i = 0; i < lines.length; i += 2) {
    if (i + 1 < lines.length) {
      testCases.push({ id: Math.floor(i / 2) + 1,
                       input: lines[i].trim(), expectedOutput: lines[i + 1].trim() })
    }
  }
  \<close>
\<close>

function parseTestCases_loop :: "string list \<Rightarrow> nat \<Rightarrow> test_case list \<Rightarrow> test_case list" where
  "parseTestCases_loop lines i testCases =
     (if i < length lines then
        parseTestCases_loop lines (i + 2)
          (if i + 1 < length lines then
             testCases @ [\<lparr>tc_id = i div 2 + 1, tc_input = js_trim (lines ! i),
                           expectedOutput = js_trim (lines ! (i + 1)), explanation = None\<rparr>]
           else testCases)
      else testCases)"
  by pat_completeness auto
termination
  by (relation "measure (\<lambda>(lines, i, testCases). length lines - i)") auto

declare parseTestCases_loop.simps [simp del]

text \<open>The lines kept by \<open>.filter((line) => line.trim())\<close>: those with a character
  that is not white space.\<close>

definition nonBlankLines :: "string \<Rightarrow> string list" where
  "nonBlankLines s = filter (\<lambda>line. js_trim line \<noteq> []) (js_split_lines s)"

text \<open>The lines that are not the empty string, whatever they contain: the other
  reading of ``non-empty line'', kept for comparison with \<open>nonBlankLines\<close>.\<close>

definition nonEmptyLines :: "string \<Rightarrow> string list" where
  "nonEmptyLines s = filter (\<lambda>line. line \<noteq> []) (js_split_lines s)"

text \<open>The argument is \<open>None\<close> when the string is absent; \<open>!testCaseString\<close>
  holds of an absent and of an empty string. Nothing in the \<open>try\<close> block can throw
  on a string, so the \<open>catch\<close> branch has no case.\<close>

definition parseTestCases :: "string option \<Rightarrow> test_case list" where
  "parseTestCases testCaseString =
     (case testCaseString of
        None \<Rightarrow> []
      | Some s \<Rightarrow> if s = [] then [] else parseTestCases_loop (nonBlankLines s) 0 [])"

record problem =
  pid :: string
  title :: string
  description :: string
  difficulty :: string
  testCases :: "test_case list"
  constraints :: "string option"

datatype phase = Approach | Coding | Evaluation

datatype skill_level = Beginner | Intermediate | Advanced

section \<open>The API routes\<close>

text \<open>
  Every route calls the LLM through its own \<open>callGeminiAPI\<close>. What the network and
  the LLM do is the environment's choice, so each call takes its outcome as an
  argument: \<open>GeminiError\<close> when \<open>fetch\<close> rejects, the status is not 2xx or the body
  is not JSON (all three end in the wrapper's \<open>catch\<close>), and \<open>GeminiReply t\<close> when a
  JSON body arrived, \<open>t\<close> being the text at \<open>candidates[0].content.parts[0].text\<close>
  (\<open>None\<close> when that path is absent). The prompt text only feeds the LLM and is
  not modelled. A thrown exception is a value \<open>Inl e\<close> of a sum type.
\<close>

datatype gemini_result = GeminiError | GeminiReply "string option"

datatype js_error = ReferenceError | GeminiApiError | SyntaxError

text \<open>\<open>data.candidates?.[0]?.content?.parts?.[0]?.text || dflt\<close>\<close>

fun textOr :: "string option \<Rightarrow> string \<Rightarrow> string" where
  "textOr None dflt = dflt"
| "textOr (Some t) dflt = (if t = [] then dflt else t)"

subsection \<open>The mentor route (\<open>app/api/mentor/route.js\<close>)\<close>

fun callGeminiAPI_mentor :: "gemini_result \<Rightarrow> js_error + string" where
  "callGeminiAPI_mentor (GeminiReply t) = Inr (textOr t ''Sorry, I could not generate a response.'')"
| "callGeminiAPI_mentor GeminiError = Inr ''I apologize, but I encountered an error. Please try again.''"

definition shouldUnlockEditor :: "string \<Rightarrow> string \<Rightarrow> bool" where
  "shouldUnlockEditor response approach =
     (js_includes response ''UNLOCK_EDITOR'' \<or>
      length approach > 30 \<or>
      js_includes (js_toLowerCase response) ''good approach'' \<or>
      js_includes (js_toLowerCase response) ''correct'' \<or>
      js_includes (js_toLowerCase response) ''ready to code'' \<or>
      js_includes (js_toLowerCase response) ''start coding'' \<or>
      js_includes (js_toLowerCase response) ''implement'')"

text \<open>The JSON body of the answer: \<open>{success: true, response, unlockEditor, newState}\<close>
  or \<open>{success: false, error}\<close> with its HTTP status.\<close>

datatype mentor_json =
    MentorSuccess string bool phase
  | MentorFailure nat string

text \<open>\<open>POST\<close>. Of the request body, \<open>skillLevel\<close>, \<open>code\<close>, \<open>language\<close>,
  \<open>hintsUsed\<close> and \<open>userApproach\<close> only shape the prompt. \<open>!message\<close> holds of the
  empty string, \<open>!problem\<close> of \<open>null\<close>.\<close>

definition mentor_POST :: "string \<Rightarrow> problem option \<Rightarrow> phase \<Rightarrow> gemini_result \<Rightarrow> mentor_json" where
  "mentor_POST message prob sessionState g =
     (if message = [] \<or> prob = None then MentorFailure 400 ''Message and problem are required''
      else (case callGeminiAPI_mentor g of
              Inl e \<Rightarrow> MentorFailure 500 ''Failed to get mentor response''
            | Inr response \<Rightarrow>
                (let shouldUnlock = (sessionState = Approach \<and> shouldUnlockEditor response message)
                 in MentorSuccess (js_trim (js_replace response ''UNLOCK_EDITOR'' []))
                      shouldUnlock (if shouldUnlock then Coding else sessionState))))"

subsection \<open>The hint route (\<open>app/api/hint/route.js\<close>)\<close>

fun callGeminiAPI_hint :: "gemini_result \<Rightarrow> js_error + string" where
  "callGeminiAPI_hint (GeminiReply t) = Inr (textOr t ''Try breaking down the problem into smaller steps.'')"
| "callGeminiAPI_hint GeminiError = Inr ''Consider what data structure might help you solve this efficiently.''"

fun FALLBACK_HINTS :: "skill_level \<Rightarrow> string list" where
  "FALLBACK_HINTS Beginner =
     [''Think about what data structure could help you store and retrieve information quickly'',
      ''Consider if you need to check every possible combination or if there's a smarter way'',
      ''What information do you need to keep track of as you go through the problem?'',
      ''Try to break the problem into smaller, simpler steps'']"
| "FALLBACK_HINTS Intermediate =
     [''What's the time complexity of your current approach? Can you do better?'',
      ''Consider using a hash map to reduce lookup time'',
      ''Think about whether sorting the input first might help'',
      ''Are there any patterns or mathematical properties you can exploit?'']"
| "FALLBACK_HINTS Advanced =
     [''Can you achieve better than O(n'' @ [CHR 0xB2] @ '') time complexity?'',
      ''Consider if this problem has optimal substructure for dynamic programming'',
      ''Think about space-time trade-offs in your approach'',
      ''Are there any advanced data structures that could optimize this?'']"

text \<open>\<open>{success: true, hint}\<close>, or \<open>{error}\<close> (no \<open>success\<close> field) with its status.\<close>

datatype hint_json =
    HintSuccess string
  | HintFailure nat string

definition hint_POST :: "problem option \<Rightarrow> skill_level \<Rightarrow> nat \<Rightarrow> gemini_result \<Rightarrow> hint_json" where
  "hint_POST prob skillLevel hintsUsed g =
     (if prob = None then HintFailure 400 ''Problem is required''
      else (case callGeminiAPI_hint g of
              Inr hint \<Rightarrow> HintSuccess hint
            | Inl e \<Rightarrow>
                (let hints = FALLBACK_HINTS skillLevel
                 in HintSuccess (hints ! (hintsUsed mod length hints)))))"

subsection \<open>The evaluation route (\<open>app/api/evaluate/route.js\<close>)\<close>

fun callGeminiAPI_evaluate :: "gemini_result \<Rightarrow> js_error + string" where
  "callGeminiAPI_evaluate (GeminiReply t) = Inr (textOr t ''Great job completing the solution!'')"
| "callGeminiAPI_evaluate GeminiError =
     Inr ''Great job completing the solution! Keep practicing to improve your skills.''"

datatype evaluate_json =
    EvaluateSuccess string
  | EvaluateFailure nat string

text \<open>Truthiness of a string field that may be absent from the body.\<close>

fun truthy :: "string option \<Rightarrow> bool" where
  "truthy None = False"
| "truthy (Some s) = (s \<noteq> [])"

text \<open>\<open>POST\<close>. The second component counts the calls of \<open>callGeminiAPI\<close> the request
  made: the validation branch returns before the call.\<close>

definition evaluate_POST ::
  "string \<Rightarrow> problem option \<Rightarrow> string option \<Rightarrow> string option \<Rightarrow> gemini_result \<Rightarrow> evaluate_json \<times> nat" where
  "evaluate_POST code prob timeComplexity spaceComplexity g =
     (if code = [] \<or> prob = None \<or> \<not> truthy timeComplexity \<or> \<not> truthy spaceComplexity
      then (EvaluateFailure 400 ''Code, problem, and complexity analysis are required'', 0)
      else (case callGeminiAPI_evaluate g of
              Inr evaluation \<Rightarrow> (EvaluateSuccess evaluation, 1)
            | Inl e \<Rightarrow> (EvaluateFailure 500 ''Failed to evaluate solution'', 1)))"

subsection \<open>The run-code route (\<open>app/api/run-code/route.js\<close>)\<close>

record test_result =
  tr_input :: string
  expected :: string
  actual :: string
  passed :: bool
  tr_error :: "string option"

text \<open>
  What the simulated execution can come to. \<open>callGeminiAPI\<close> of this route rethrows:
  \<open>SimThrows m\<close> is its exception with message \<open>m\<close>. Otherwise the reply text either
  holds no \<open>{...}\<close> (\<open>SimNoJson\<close>), or \<open>JSON.parse\<close> of the match throws with message
  \<open>m\<close> (\<open>SimBadJson m\<close>), or it parses to an object whose \<open>results\<close> and \<open>allPassed\<close>
  are returned as they are (\<open>SimJson\<close>).
\<close>

datatype sim_reply =
    SimThrows string
  | SimNoJson
  | SimBadJson string
  | SimJson "test_result list" bool

definition executeCode :: "test_case list \<Rightarrow> sim_reply \<Rightarrow> test_result list \<times> bool" where
  "executeCode tcs r =
     (case r of
        SimJson results allPassed \<Rightarrow> (results, allPassed)
      | SimNoJson \<Rightarrow>
          (map (\<lambda>tc. \<lparr>tr_input = tc_input tc, expected = expectedOutput tc,
                        actual = ''Simulation failed'', passed = False,
                        tr_error = Some ''Could not simulate code execution''\<rparr>) tcs, False)
      | SimBadJson m \<Rightarrow>
          (map (\<lambda>tc. \<lparr>tr_input = tc_input tc, expected = expectedOutput tc,
                        actual = ''Error'', passed = False,
                        tr_error = Some (''Execution failed: '' @ m)\<rparr>) tcs, False)
      | SimThrows m \<Rightarrow>
          (map (\<lambda>tc. \<lparr>tr_input = tc_input tc, expected = expectedOutput tc,
                        actual = ''Error'', passed = False,
                        tr_error = Some (''Execution failed: '' @ m)\<rparr>) tcs, False))"

datatype run_json =
    RunSuccess "test_result list" bool
  | RunFailure nat string

text \<open>\<open>POST\<close>. \<open>problem.testCases || []\<close> reads an absent list as the empty one, which
  is how the record holds it. The second component counts the calls of
  \<open>executeCode\<close>, the execution service.\<close>

definition run_code_POST ::
  "string \<Rightarrow> string \<Rightarrow> problem option \<Rightarrow> sim_reply \<Rightarrow> run_json \<times> nat" where
  "run_code_POST code language prob r =
     (case prob of
        None \<Rightarrow> (RunFailure 400 ''Code, language, and problem are required'', 0)
      | Some p \<Rightarrow>
          if code = [] \<or> language = []
          then (RunFailure 400 ''Code, language, and problem are required'', 0)
          else if length (testCases p) = 0
          then (RunFailure 400 ''No test cases available for this problem'', 0)
          else (let executionResult = executeCode (testCases p) r
                in (RunSuccess (fst executionResult) (snd executionResult), 1)))"

subsection \<open>The automatic-hint route (\<open>app/api/automatic-hint/route.js\<close>)\<close>

text \<open>\<open>regex.test(s)\<close> for an unanchored pattern: the pattern matches at some position,
  that is, on some suffix of \<open>s\<close> (the empty one included).\<close>

fun re_test :: "(string \<Rightarrow> bool) \<Rightarrow> string \<Rightarrow> bool" where
  "re_test p [] = p []"
| "re_test p (c # cs) = (p (c # cs) \<or> re_test p cs)"

text \<open>The patterns of \<open>analyzeCodeProgress\<close>, each matched at the start of \<open>t\<close>.
  A greedy \<open>\s*\<close> or \<open>\s+\<close> followed by a character that is not white space (and a
  greedy \<open>\w+\<close> followed by white space) can only match the whole run, so no
  backtracking into the run succeeds.\<close>

definition startsWith :: "char \<Rightarrow> string \<Rightarrow> bool" where
  "startsWith ch t = (case t of [] \<Rightarrow> False | c # cs \<Rightarrow> c = ch)"

definition startsWithP :: "(char \<Rightarrow> bool) \<Rightarrow> string \<Rightarrow> bool" where
  "startsWithP P t = (case t of [] \<Rightarrow> False | c # cs \<Rightarrow> P c)"

text \<open>\<open>kw\s*ch\<close>, as in \<open>for\s*\(\<close>, \<open>while\s*\(\<close> and \<open>if\s*\(\<close>.\<close>

definition kw_spaces_char :: "string \<Rightarrow> char \<Rightarrow> string \<Rightarrow> bool" where
  "kw_spaces_char kw ch t =
     (prefix kw t \<and> startsWith ch (dropWhile isWhiteSpace (drop (length kw) t)))"

text \<open>\<open>kw\s+\w+\<close>, as in \<open>function\s+\w+\<close>, \<open>def\s+\w+\<close>, \<open>let\s+\w+\<close>.\<close>

definition kw_space_word :: "string \<Rightarrow> string \<Rightarrow> bool" where
  "kw_space_word kw t =
     (prefix kw t \<and> startsWithP isWhiteSpace (drop (length kw) t) \<and>
      startsWithP isWordChar (dropWhile isWhiteSpace (drop (length kw) t)))"

text \<open>\<open>return\s+\<close>\<close>

definition kw_space :: "string \<Rightarrow> string \<Rightarrow> bool" where
  "kw_space kw t = (prefix kw t \<and> startsWithP isWhiteSpace (drop (length kw) t))"

text \<open>\<open>for\s+\w+\s+in\<close>\<close>

definition for_in :: "string \<Rightarrow> bool" where
  "for_in t =
     (let r = drop 3 t;
          r1 = dropWhile isWhiteSpace r;
          r2 = dropWhile isWordChar r1;
          r3 = dropWhile isWhiteSpace r2
      in prefix ''for'' t \<and> startsWithP isWhiteSpace r \<and> startsWithP isWordChar r1 \<and>
         startsWithP isWhiteSpace r2 \<and> prefix ''in'' r3)"

text \<open>\<open>\w+\s*=\<close>: some word character is followed by white space and \<open>=\<close>; tried at
  every position, the last character of the \<open>\w+\<close> run is the one that decides.\<close>

definition word_spaces_eq :: "string \<Rightarrow> bool" where
  "word_spaces_eq t =
     (case t of [] \<Rightarrow> False
      | c # cs \<Rightarrow> isWordChar c \<and> startsWith (CHR ''='') (dropWhile isWhiteSpace cs))"

record analysis =
  hasFunction :: bool
  hasLoop :: bool
  hasConditional :: bool
  hasReturn :: bool
  hasVariables :: bool
  hasComments :: bool
  linesOfCode :: nat
  totalLength :: nat
  isEmpty :: bool
  isJustStarting :: bool
  hasBasicStructure :: bool
  isWellDeveloped :: bool

definition analyzeCodeProgress :: "string \<Rightarrow> analysis" where
  "analyzeCodeProgress code =
     (let codeLines = filter (\<lambda>line. length (js_trim line) > 0) (js_split_lines code);
          codeLength = length (js_trim code)
      in \<lparr>hasFunction = re_test (\<lambda>t. kw_space_word ''function'' t \<or> kw_space_word ''def'' t \<or>
                                     kw_space_word ''public'' t) code,
          hasLoop = re_test (\<lambda>t. kw_spaces_char ''for'' (CHR ''('') t \<or>
                                 kw_spaces_char ''while'' (CHR ''('') t \<or> for_in t) code,
          hasConditional = re_test (kw_spaces_char ''if'' (CHR ''('')) code,
          hasReturn = re_test (kw_space ''return'') code,
          hasVariables = re_test (\<lambda>t. kw_space_word ''let'' t \<or> kw_space_word ''const'' t \<or>
                                      kw_space_word ''var'' t \<or> word_spaces_eq t) code,
          hasComments = (js_includes code ''//'' \<or> js_includes code ''/*'' \<or> js_includes code ''#''),
          linesOfCode = length codeLines,
          totalLength = codeLength,
          isEmpty = (codeLength < 20),
          isJustStarting = (codeLength < 50),
          hasBasicStructure = (codeLength > 50 \<and> codeLength < 200),
          isWellDeveloped = (codeLength > 200)\<rparr>)"

text \<open>
  \<open>getContextualHints(analysis, problem, skillLevel)\<close>. The problem-specific block reads
  \<open>code\<close>, which is neither a parameter nor a variable of the module: when the title
  contains "two sum", evaluating \<open>code.includes("Map")\<close> throws a ReferenceError,
  so the function returns no list there.
\<close>

definition stageHints :: "analysis \<Rightarrow> problem \<Rightarrow> string list" where
  "stageHints a p =
     (if isJustStarting a then
        [''Start by understanding the input and expected output format'',
         ''Think about what data structure would be most helpful here'',
         ''Consider writing the function signature first'']
      else if hasBasicStructure a then
        (if \<not> hasLoop a \<and> js_includes (js_toLowerCase (description p)) ''array''
         then [''You might need to iterate through the array''] else []) @
        (if \<not> hasConditional a then [''Consider what conditions you need to check''] else []) @
        (if \<not> hasReturn a then [''Don't forget to return the result''] else [])
      else if isWellDeveloped a then
        [''Test your logic with the given examples'',
         ''Consider edge cases like empty inputs'',
         ''Think about the time complexity of your approach'']
      else [])"

definition skillHints :: "skill_level \<Rightarrow> string list" where
  "skillHints skillLevel =
     (case skillLevel of
        Beginner \<Rightarrow> [''Take it step by step - you're doing great!'']
      | Advanced \<Rightarrow> [''Can you optimize this further?'']
      | Intermediate \<Rightarrow> [])"

definition getContextualHints :: "analysis \<Rightarrow> problem \<Rightarrow> skill_level \<Rightarrow> js_error + string list" where
  "getContextualHints a p skillLevel =
     (if isEmpty a then Inr []
      else if js_includes (js_toLowerCase (title p)) ''two sum'' then Inl ReferenceError
      else Inr (stageHints a p @ skillHints skillLevel))"

fun callGeminiAPI_automatic :: "gemini_result \<Rightarrow> js_error + string" where
  "callGeminiAPI_automatic (GeminiReply t) = Inr (textOr t [])"
| "callGeminiAPI_automatic GeminiError = Inr []"

text \<open>\<open>hint.trim().replace(/^["']|["']$/g, "")\<close>: one quote off each end.\<close>

definition isQuote :: "char \<Rightarrow> bool" where
  "isQuote c = (c = CHR 0x22 \<or> c = CHR 0x27)"

definition stripQuotes :: "string \<Rightarrow> string" where
  "stripQuotes s =
     (let s1 = (case s of [] \<Rightarrow> [] | c # cs \<Rightarrow> if isQuote c then cs else c # cs)
      in (case rev s1 of [] \<Rightarrow> [] | c # cs \<Rightarrow> if isQuote c then rev cs else s1))"

text \<open>\<open>{success, hint}\<close>\<close>

datatype automatic_json = AutomaticHint bool string

text \<open>\<open>POST\<close>. \<open>pick\<close> stands for \<open>Math.random()\<close>: the index drawn is
  \<open>pick mod contextualHints.length\<close>.\<close>

definition automatic_hint_POST ::
  "string \<Rightarrow> problem option \<Rightarrow> skill_level \<Rightarrow> phase \<Rightarrow> nat \<Rightarrow> gemini_result \<Rightarrow> automatic_json" where
  "automatic_hint_POST code prob skillLevel sessionState pick g =
     (case prob of
        None \<Rightarrow> AutomaticHint False []
      | Some p \<Rightarrow>
          if code = [] \<or> sessionState \<noteq> Coding then AutomaticHint False []
          else (case getContextualHints (analyzeCodeProgress code) p skillLevel of
                  Inl e \<Rightarrow> AutomaticHint False []
                | Inr contextualHints \<Rightarrow>
                    if length contextualHints = 0 then AutomaticHint False []
                    else (case callGeminiAPI_automatic g of
                            Inl e \<Rightarrow> AutomaticHint False []
                          | Inr hint \<Rightarrow>
                              (let cleanHint = stripQuotes (js_trim hint)
                               in if cleanHint = [] \<or> length cleanHint < 10 \<or>
                                     js_includes (js_toLowerCase cleanHint) ''hint:''
                                  then AutomaticHint True
                                         (contextualHints ! (pick mod length contextualHints))
                                  else AutomaticHint True cleanHint))))"

section \<open>The paste parser (\<open>components/ProblemPanel.js\<close>)\<close>

text \<open>
  \<open>text.match(/Example \d+:[\s\S]*?(?=Example \d+:|$)/g)\<close>.
  \<open>exampleHeader t\<close> is the length of a match of \<open>Example \d+:\<close> at the start of \<open>t\<close>
  (the greedy \<open>\d+\<close> is followed by a colon, so it takes the whole run of digits).
  \<open>lazyBody\<close> is \<open>[\s\S]*?(?=Example \d+:|$)\<close>: the shortest stretch after which a
  header or the end of the text follows; it returns the stretch and the rest.
  The pattern has no \<open>m\<close> flag, so \<open>$\<close> is the end of the text only.
\<close>

definition exampleHeader :: "string \<Rightarrow> nat option" where
  "exampleHeader t =
     (if prefix ''Example '' t \<and> takeWhile isDigit (drop 8 t) \<noteq> [] \<and>
         startsWith (CHR '':'') (dropWhile isDigit (drop 8 t))
      then Some (8 + length (takeWhile isDigit (drop 8 t)) + 1)
      else None)"

fun lazyBody :: "string \<Rightarrow> string \<times> string" where
  "lazyBody [] = ([], [])"
| "lazyBody (c # cs) =
     (if exampleHeader (c # cs) \<noteq> None then ([], c # cs)
      else (case lazyBody cs of (b, r) \<Rightarrow> (c # b, r)))"

lemma length_snd_lazyBody: "length (snd (lazyBody t)) \<le> length t"
  by (induction t) (auto split: prod.splits)

text \<open>The matches of the global pattern, left to right: the search for the next
  match starts where the last one ended.\<close>

function matchExamples :: "string \<Rightarrow> string list" where
  "matchExamples [] = []"
| "matchExamples (c # cs) =
     (case exampleHeader (c # cs) of
        None \<Rightarrow> matchExamples cs
      | Some h \<Rightarrow>
          (take h (c # cs) @ fst (lazyBody (drop h (c # cs)))) #
          matchExamples (snd (lazyBody (drop h (c # cs)))))"
  by pat_completeness auto
termination
proof (relation "measure length")
  show "wf (measure length)" by simp
next
  fix c :: char and cs :: string
  show "(cs, c # cs) \<in> measure length" by simp
next
  fix c :: char and cs :: string and h :: nat
  assume "exampleHeader (c # cs) = Some h"
  then have "0 < h" by (auto simp: exampleHeader_def split: if_splits)
  then have "length (drop h (c # cs)) < length (c # cs)" by simp
  with length_snd_lazyBody [of "drop h (c # cs)"]
  show "(snd (lazyBody (drop h (c # cs))), c # cs) \<in> measure length" by simp
qed

text \<open>
  \<open>example.match(/Input:\s*(.+)/i)\<close> and its \<open>Output\<close> twin: the first position where
  the keyword (letters compared without case), white space and at least one character
  that is not a line terminator follow one another; the value is group 1.
  At a keyword, the greedy \<open>\s*\<close> takes the whole run of white space; if a character
  follows the run, group 1 runs from it to the end of its line. If the text ends
  with the run, \<open>\s*\<close> gives back characters until \<open>.\<close> can match one: the last
  character of the run that is not a line terminator is group 1, and without one
  the pattern does not match at this keyword.
\<close>

definition ci_prefix :: "string \<Rightarrow> string \<Rightarrow> bool" where
  "ci_prefix kw t = prefix (js_toLowerCase kw) (js_toLowerCase t)"

definition fieldAt :: "string \<Rightarrow> string \<Rightarrow> string option" where
  "fieldAt kw t =
     (if ci_prefix kw t then
        (let r = drop (length kw) t;
             ws = takeWhile isWhiteSpace r;
             rest = dropWhile isWhiteSpace r
         in if rest \<noteq> [] then Some (takeWhile (\<lambda>c. \<not> isLineTerminator c) rest)
            else (case rev (filter (\<lambda>c. \<not> isLineTerminator c) ws) of
                    [] \<Rightarrow> None
                  | c # cs \<Rightarrow> Some [c]))
      else None)"

fun firstMatch :: "(string \<Rightarrow> 'a option) \<Rightarrow> string \<Rightarrow> 'a option" where
  "firstMatch f [] = f []"
| "firstMatch f (c # cs) = (case f (c # cs) of Some x \<Rightarrow> Some x | None \<Rightarrow> firstMatch f cs)"

text \<open>\<open>m ? m[1].trim() : ""\<close>\<close>

definition fieldValue :: "string \<Rightarrow> string \<Rightarrow> string" where
  "fieldValue kw example =
     (case firstMatch (fieldAt kw) example of None \<Rightarrow> [] | Some g \<Rightarrow> js_trim g)"

text \<open>\<open>s.split(sep)[1]\<close> is the piece between the first and the second occurrence of
  \<open>sep\<close> (or the end); \<open>afterFirst\<close> is what follows the first occurrence, \<open>beforeFirst\<close>
  what precedes it.\<close>

fun afterFirst :: "string \<Rightarrow> string \<Rightarrow> string option" where
  "afterFirst sep [] = (if sep = [] then Some [] else None)"
| "afterFirst sep (c # cs) =
     (if prefix sep (c # cs) then Some (drop (length sep) (c # cs)) else afterFirst sep cs)"

fun beforeFirst :: "string \<Rightarrow> string \<Rightarrow> string" where
  "beforeFirst sep [] = []"
| "beforeFirst sep (c # cs) = (if prefix sep (c # cs) then [] else c # beforeFirst sep cs)"

definition explanationOf :: "string \<Rightarrow> string" where
  "explanationOf example =
     (case afterFirst ''Explanation:'' example of
        None \<Rightarrow> []
      | Some r \<Rightarrow> js_trim (beforeFirst ''Explanation:'' r))"

definition generateTestCases :: "string \<Rightarrow> test_case list" where
  "generateTestCases txt =
     map (\<lambda>(index, example).
            \<lparr>tc_id = index + 1,
             tc_input = fieldValue ''Input:'' example,
             expectedOutput = fieldValue ''Output:'' example,
             explanation = Some (explanationOf example)\<rparr>)
         (enumerate 0 (matchExamples txt))"

text \<open>\<open>text.match(/Constraints?:([\s\S]*?)(?=\n\n|$)/i)\<close>, group 1 trimmed.\<close>

definition constraintsAt :: "string \<Rightarrow> string option" where
  "constraintsAt t =
     (if ci_prefix ''constraint'' t then
        (case drop 10 t of
           [] \<Rightarrow> None
         | c # r \<Rightarrow>
             if lowerChar c = CHR ''s'' \<and> startsWith (CHR '':'') r
             then Some (beforeFirst [CHR 0x0A, CHR 0x0A] (drop 1 r))
             else if c = CHR '':'' then Some (beforeFirst [CHR 0x0A, CHR 0x0A] r)
             else None)
      else None)"

definition extractConstraints :: "string \<Rightarrow> string" where
  "extractConstraints txt =
     (case firstMatch constraintsAt txt of None \<Rightarrow> [] | Some g \<Rightarrow> js_trim g)"

fun skillName :: "skill_level \<Rightarrow> string" where
  "skillName Beginner = ''beginner''"
| "skillName Intermediate = ''intermediate''"
| "skillName Advanced = ''advanced''"

text \<open>\<open>handlePasteProblem\<close>: the problem handed to \<open>onProblemLoad\<close>, or \<open>None\<close> when the
  text is blank and the handler returns at once.\<close>

definition handlePasteProblem :: "string \<Rightarrow> skill_level \<Rightarrow> problem option" where
  "handlePasteProblem problemText skillLevel =
     (if js_trim problemText = [] then None
      else Some \<lparr>pid = ''custom'',
                 title = (case js_split_lines problemText of
                            [] \<Rightarrow> ''Custom Problem''
                          | l # ls \<Rightarrow> if l = [] then ''Custom Problem'' else l),
                 description = problemText,
                 difficulty = skillName skillLevel,
                 testCases = generateTestCases problemText,
                 constraints = Some (extractConstraints problemText)\<rparr>)"

section \<open>The page (\<open>app/page.js\<close>): session state and handlers\<close>

datatype role = User | Assistant

record chat_message =
  role :: role
  content :: string

datatype toast_type = ToastInfo | ToastSuccess | ToastHint | ToastError

type_synonym toast = "string \<times> toast_type"

text \<open>
  A pending timeout of the JavaScript runtime, as \<open>handleCodeChange\<close> creates it: its
  id, the time it is due, and what its callback closes over (\<open>newCode\<close>, and the
  \<open>problem\<close>, \<open>skillLevel\<close> and \<open>sessionState\<close> of the render the handler belongs to,
  which \<open>handleAutomaticHint\<close> reads).
\<close>

record timer =
  timer_id :: nat
  due :: nat
  t_code :: string
  t_problem :: "problem option"
  t_skillLevel :: skill_level
  t_sessionState :: phase

text \<open>
  The Monaco editor that \<open>CodeEditor\<close> creates and keeps in \<open>monacoRef\<close>: its content
  (\<open>getValue()\<close>) and its \<open>readOnly\<close> option.
\<close>

record monaco_editor =
  ed_value :: string
  ed_readOnly :: bool

text \<open>
  The state of the component \<open>DSACoach\<close>: its \<open>useState\<close> values, its three refs
  (\<open>lastActivity\<close>, \<open>inactivityTimer\<close>, \<open>lastCode\<close>), the ref \<open>monacoRef\<close> of its child
  \<open>CodeEditor\<close> (\<open>None\<close> until the editor exists), and the part of the runtime the
  handlers act on (the pending timeouts and the next timer id; ids start at 1, so a
  stored id is truthy). Times are milliseconds on a virtual clock. \<open>toasts\<close> is the
  history of the toasts shown (their removal after 4 seconds is display only), and
  \<open>autoHintCalls\<close> records each call the inactivity timer makes of
  \<open>handleAutomaticHint\<close>, with its time and code: it is observation only, no handler
  reads it.
\<close>

record session =
  skillLevel :: skill_level
  problem :: "problem option"
  code :: string
  language :: string
  isEditorLocked :: bool
  chatMessages :: "chat_message list"
  testResults :: "test_result list"
  toasts :: "toast list"
  sessionState :: phase
  userApproach :: string
  hintsUsed :: nat
  isLoading :: bool
  showComplexityModal :: bool
  lastActivity :: nat
  inactivityTimer :: "nat option"
  lastCode :: string
  pendingTimers :: "timer list"
  nextTimerId :: nat
  autoHintCalls :: "(nat \<times> string) list"
  monaco :: "monaco_editor option"

text \<open>The state on page load, at time \<open>t0\<close>.\<close>

definition initialSession :: "nat \<Rightarrow> session" where
  "initialSession t0 =
     \<lparr>skillLevel = Beginner, problem = None, code = [], language = ''javascript'',
      isEditorLocked = True, chatMessages = [], testResults = [], toasts = [],
      sessionState = Approach, userApproach = [], hintsUsed = 0, isLoading = False,
      showComplexityModal = False, lastActivity = t0, inactivityTimer = None,
      lastCode = [], pendingTimers = [], nextTimerId = 1, autoHintCalls = [],
      monaco = None\<rparr>"

text \<open>
  A handler is a closure of the render that created it: the state values it reads
  (\<open>isEditorLocked\<close>, \<open>sessionState\<close>, \<open>problem\<close>, ...) are those of that render, while
  refs, functional updates and the runtime are current. The controls of the page
  call the handler of the latest render, so the handlers below read the state \<open>s\<close>
  they start from; \<open>handleCodeChange\<close>, which the editor also calls from an earlier
  render, takes the state of its render as the argument \<open>r\<close>. The values of the first
  render are those of the state on page load.
\<close>

definition firstRender :: session where
  "firstRender = initialSession 0"

text \<open>
  What \<open>await fetch(...)\<close> followed by \<open>await response.json()\<close> gives a handler:
  \<open>FetchThrows\<close> when either throws (the request never reached the route, or the
  answer is not JSON), \<open>Fetched d\<close> with the parsed body otherwise.
\<close>

datatype 'a fetch_result = FetchThrows | Fetched 'a

fun map_fetch :: "('a \<Rightarrow> 'b) \<Rightarrow> 'a fetch_result \<Rightarrow> 'b fetch_result" where
  "map_fetch f FetchThrows = FetchThrows"
| "map_fetch f (Fetched x) = Fetched (f x)"

definition showToast :: "string \<Rightarrow> toast_type \<Rightarrow> session \<Rightarrow> session" where
  "showToast m ty s = s\<lparr>toasts := toasts s @ [(m, ty)]\<rparr>"

definition addMessage :: "role \<Rightarrow> string \<Rightarrow> session \<Rightarrow> session" where
  "addMessage r m s = s\<lparr>chatMessages := chatMessages s @ [\<lparr>role = r, content = m\<rparr>]\<rparr>"

text \<open>
  \<open>handleSendMessage(message)\<close>, given what the fetch of \<open>/api/mentor\<close> returned.
  \<open>isEditorLocked\<close> and \<open>sessionState\<close> in the body are the values of the render the
  handler belongs to, that is, of the state \<open>s\<close> it starts from. The emoji that
  opens the toast text, with the space after it, is outside the character range of
  the model and left out (likewise in the other toasts).
\<close>

definition handleSendMessage :: "mentor_json fetch_result \<Rightarrow> string \<Rightarrow> session \<Rightarrow> session" where
  "handleSendMessage d m s =
     (let s1 = addMessage User m (s\<lparr>isLoading := True\<rparr>);
          s2 = (if sessionState s = Approach then s1\<lparr>userApproach := m\<rparr> else s1);
          s3 = (case d of
                  Fetched (MentorSuccess response unlockEditor newState) \<Rightarrow>
                    (let a = addMessage Assistant response s2;
                         b = (if unlockEditor \<and> isEditorLocked s
                              then showToast ''Code editor unlocked! You can start coding now.'' ToastSuccess
                                     (a\<lparr>isEditorLocked := False, sessionState := Coding\<rparr>)
                              else a)
                     in if newState \<noteq> sessionState s then b\<lparr>sessionState := newState\<rparr> else b)
                | Fetched (MentorFailure st e) \<Rightarrow>
                    addMessage Assistant
                      ''I'm having trouble processing your message. Please try again.'' s2
                | FetchThrows \<Rightarrow>
                    addMessage Assistant
                      ''I'm experiencing technical difficulties. Please try again.'' s2)
      in s3\<lparr>isLoading := False\<rparr>)"

definition handleHintRequest :: "hint_json fetch_result \<Rightarrow> session \<Rightarrow> session" where
  "handleHintRequest d s =
     (let s1 = s\<lparr>isLoading := True\<rparr>;
          s2 = (case d of
                  Fetched (HintSuccess hint) \<Rightarrow>
                    showToast (''Hint: '' @ hint) ToastHint (s1\<lparr>hintsUsed := hintsUsed s1 + 1\<rparr>)
                | Fetched (HintFailure st e) \<Rightarrow> s1
                | FetchThrows \<Rightarrow>
                    showToast ''Unable to get hint right now. Try again later.'' ToastError s1)
      in s2\<lparr>isLoading := False\<rparr>)"

definition handleRunCode :: "run_json fetch_result \<Rightarrow> session \<Rightarrow> session" where
  "handleRunCode d s =
     (let s1 = s\<lparr>isLoading := True\<rparr>;
          s2 = (case d of
                  Fetched (RunSuccess results allPassed) \<Rightarrow>
                    (if allPassed
                     then showToast ''All tests passed! Great job!'' ToastSuccess
                            (s1\<lparr>testResults := results\<rparr>)
                     else showToast ''Some tests failed. Check the results below.'' ToastError
                            (s1\<lparr>testResults := results\<rparr>))
                | Fetched (RunFailure st e) \<Rightarrow>
                    showToast ''Error running code. Please try again.'' ToastError s1
                | FetchThrows \<Rightarrow>
                    showToast ''Failed to run code. Please try again.'' ToastError s1)
      in s2\<lparr>isLoading := False\<rparr>)"

definition handleSubmitClick :: "session \<Rightarrow> session" where
  "handleSubmitClick s = s\<lparr>showComplexityModal := True\<rparr>"

definition handleComplexitySubmit :: "evaluate_json fetch_result \<Rightarrow> session \<Rightarrow> session" where
  "handleComplexitySubmit d s =
     (case d of
        Fetched (EvaluateSuccess evaluation) \<Rightarrow>
          showToast ''Solution evaluated! Check the chat for feedback.'' ToastSuccess
            ((addMessage Assistant evaluation s)
               \<lparr>sessionState := Evaluation, showComplexityModal := False\<rparr>)
      | Fetched (EvaluateFailure st e) \<Rightarrow>
          showToast ''Failed to evaluate solution. Please try again.'' ToastError s
      | FetchThrows \<Rightarrow>
          showToast ''Failed to evaluate solution. Please try again.'' ToastError s)"

text \<open>\<open>handleAutomaticHint(currentCode)\<close>, with the \<open>problem\<close> its closure holds.\<close>

definition handleAutomaticHint ::
  "automatic_json fetch_result \<Rightarrow> string \<Rightarrow> problem option \<Rightarrow> session \<Rightarrow> session" where
  "handleAutomaticHint d currentCode prob s =
     (if length (js_trim currentCode) < 20 \<or> prob = None then s
      else (case d of
              Fetched (AutomaticHint success hint) \<Rightarrow>
                if success \<and> hint \<noteq> [] \<and> js_trim hint \<noteq> [] then showToast hint ToastHint s else s
            | FetchThrows \<Rightarrow> s))"

text \<open>\<open>handleInitialMessage\<close>, given the \<open>message\<close> of a successful greeting
  (\<open>None\<close> when \<open>data.success\<close> is not true).\<close>

definition handleInitialMessage :: "string option fetch_result \<Rightarrow> problem \<Rightarrow> session \<Rightarrow> session" where
  "handleInitialMessage d loadedProblem s =
     (case d of
        Fetched (Some m) \<Rightarrow> s\<lparr>chatMessages := [\<lparr>role = Assistant, content = m\<rparr>]\<rparr>
      | Fetched None \<Rightarrow> s
      | FetchThrows \<Rightarrow>
          s\<lparr>chatMessages := [\<lparr>role = Assistant, content =
              ''Great! I see you've loaded '' @ [CHR 0x22] @ title loadedProblem @ [CHR 0x22] @
              ''. Let's work through this together! '' @ [CHR 0x0A, CHR 0x0A] @
              ''First, I'd like to understand your approach. Can you tell me how you would tackle this problem? Don't worry about the code yet - just explain your thinking process.''\<rparr>]\<rparr>)"

subsection \<open>The inactivity timer\<close>

definition clearTimeout :: "nat \<Rightarrow> session \<Rightarrow> session" where
  "clearTimeout i s = s\<lparr>pendingTimers := filter (\<lambda>t. timer_id t \<noteq> i) (pendingTimers s)\<rparr>"

text \<open>\<open>setTimeout(callback, delay)\<close> at time \<open>now\<close>, in a handler of the render \<open>r\<close>: a new
  pending timeout; its id is returned.\<close>

definition setTimeout :: "session \<Rightarrow> nat \<Rightarrow> nat \<Rightarrow> string \<Rightarrow> session \<Rightarrow> nat \<times> session" where
  "setTimeout r now delay newCode s =
     (nextTimerId s,
      s\<lparr>pendingTimers := pendingTimers s @
            [\<lparr>timer_id = nextTimerId s, due = now + delay, t_code = newCode,
              t_problem = problem r, t_skillLevel = skillLevel r,
              t_sessionState = sessionState r\<rparr>],
        nextTimerId := nextTimerId s + 1\<rparr>)"

text \<open>\<open>handleCodeChange(newCode)\<close> of the render \<open>r\<close>, called at time \<open>now\<close> (\<open>Date.now()\<close>)
  in the state \<open>s\<close>: \<open>isEditorLocked\<close> and \<open>sessionState\<close> in the test are those of \<open>r\<close>,
  the three refs are those of \<open>s\<close>.\<close>

definition handleCodeChange :: "session \<Rightarrow> nat \<Rightarrow> string \<Rightarrow> session \<Rightarrow> session" where
  "handleCodeChange r now newCode s =
     (let s1 = s\<lparr>code := newCode, lastActivity := now\<rparr>;
          s2 = (case inactivityTimer s1 of None \<Rightarrow> s1 | Some i \<Rightarrow> clearTimeout i s1)
      in if \<not> isEditorLocked r \<and> sessionState r = Coding \<and> length (js_trim newCode) > 10
         then (let s3 = s2\<lparr>lastCode := newCode\<rparr>;
                   t = setTimeout r now 3000 newCode s3
               in (snd t)\<lparr>inactivityTimer := Some (fst t)\<rparr>)
         else s2)"

text \<open>
  The runtime runs the callback of a timeout that is due. The callback reads
  \<open>Date.now()\<close> (the time \<open>now\<close> it runs at) and \<open>lastActivityRef.current\<close>, and calls
  \<open>handleAutomaticHint(newCode)\<close> when at least 3000 ms have passed; \<open>env now\<close> is the
  environment's answer to the fetch of \<open>/api/automatic-hint\<close> made then (the random
  draw and the LLM outcome). The subtraction is the truncating one of \<open>nat\<close>: a
  negative difference of the source fails the test as 0 does.
\<close>

definition fireTimer :: "(nat \<Rightarrow> (nat \<times> gemini_result) fetch_result) \<Rightarrow> nat \<Rightarrow> timer \<Rightarrow> session \<Rightarrow> session" where
  "fireTimer env now t s =
     (let s1 = s\<lparr>pendingTimers := filter (\<lambda>u. timer_id u \<noteq> timer_id t) (pendingTimers s)\<rparr>;
          timeSinceLastActivity = now - lastActivity s1
      in if timeSinceLastActivity \<ge> 3000
         then handleAutomaticHint
                (map_fetch (\<lambda>(pick, g). automatic_hint_POST (t_code t) (t_problem t)
                               (t_skillLevel t) (t_sessionState t) pick g) (env now))
                (t_code t) (t_problem t)
                (s1\<lparr>autoHintCalls := autoHintCalls s1 @ [(now, t_code t)]\<rparr>)
         else s1)"

text \<open>The clock reaches \<open>t\<close>: every pending timeout due by then runs, in the order of
  the due times, each at its due time.\<close>

definition advance :: "(nat \<Rightarrow> (nat \<times> gemini_result) fetch_result) \<Rightarrow> nat \<Rightarrow> session \<Rightarrow> session" where
  "advance env t s =
     foldl (\<lambda>s' u. fireTimer env (due u) u s') s
       (sort_key due (filter (\<lambda>u. due u \<le> t) (pendingTimers s)))"

subsection \<open>The code editor (\<open>components/CodeEditor.js\<close>)\<close>

text \<open>\<open>getDefaultCode(lang)\<close>: the template of one of the four languages the selector
  offers, the JavaScript one for any other name.\<close>

definition getDefaultCode :: "string \<Rightarrow> string" where
  "getDefaultCode lang =
     (if lang = ''python'' then
        ''def twoSum(nums, target):\<newline>    # Your code here\<newline>    pass''
      else if lang = ''java'' then
        ''public class Solution {\<newline>    public int[] twoSum(int[] nums, int target) {\<newline>        // Your code here\<newline>        \<newline>    }\<newline>}''
      else if lang = ''cpp'' then
        ''#include <vector>\<newline>using namespace std;\<newline>\<newline>class Solution {\<newline>public:\<newline>    vector<int> twoSum(vector<int>& nums, int target) {\<newline>        // Your code here\<newline>        \<newline>    }\<newline>};''
      else
        ''function twoSum(nums, target) {\<newline>    // Your code here\<newline>    \<newline>}'')"

text \<open>
  \<open>initializeEditor\<close> runs once, when the Monaco script has loaded. It is called from
  the effect with no dependencies, so it is the function of the first render of
  \<open>CodeEditor\<close> (which the page renders from its first render on): the \<open>language\<close>,
  \<open>isLocked\<close> and \<open>onChange\<close> it reads are those of the render \<open>r\<close> it belongs to,
  whatever the state is when it runs. It creates the editor with the template as
  content and registers the listener below.
\<close>

definition initializeEditor :: "session \<Rightarrow> session \<Rightarrow> session" where
  "initializeEditor r s =
     s\<lparr>monaco := Some \<lparr>ed_value = getDefaultCode (language r), ed_readOnly = isEditorLocked r\<rparr>\<rparr>"

text \<open>The listener \<open>initializeEditor\<close> registers with \<open>onDidChangeModelContent\<close>:
  \<open>onChange(monacoRef.current.getValue())\<close>, where \<open>onChange\<close> is the \<open>handleCodeChange\<close> of
  the render \<open>r\<close>.\<close>

definition contentListener :: "session \<Rightarrow> nat \<Rightarrow> session \<Rightarrow> session" where
  "contentListener r now s =
     (case monaco s of None \<Rightarrow> s | Some ed \<Rightarrow> handleCodeChange r now (ed_value ed) s)"

text \<open>
  The content of the editor changes by \<open>setValue\<close> or by the user typing, and Monaco
  then calls the registered listener, which is the one of the first render. A
  read-only editor takes no typing, and typing the content that is there changes
  nothing.
\<close>

definition setValue :: "nat \<Rightarrow> string \<Rightarrow> session \<Rightarrow> session" where
  "setValue now v s =
     (case monaco s of
        None \<Rightarrow> s
      | Some ed \<Rightarrow> contentListener firstRender now (s\<lparr>monaco := Some (ed\<lparr>ed_value := v\<rparr>)\<rparr>))"

definition typeInEditor :: "nat \<Rightarrow> string \<Rightarrow> session \<Rightarrow> session" where
  "typeInEditor now v s =
     (case monaco s of
        None \<Rightarrow> s
      | Some ed \<Rightarrow> if ed_readOnly ed \<or> v = ed_value ed then s else setValue now v s)"

text \<open>
  The effects of \<open>CodeEditor\<close> after a render of the state \<open>s\<close>, the render before
  having shown \<open>prev\<close>; each runs when its dependency changed and \<open>monacoRef.current\<close>
  is set, in the order of the source:
  \<^item> \<open>[code]\<close>: \<open>setValue(code)\<close> if the editor shows something else;
  \<^item> \<open>[language]\<close>: \<open>setModelLanguage\<close> (display only), then
    \<open>onChange(getDefaultCode(language))\<close> with the \<open>onChange\<close> of this render;
  \<^item> \<open>[isLocked]\<close>: \<open>updateOptions({ readOnly: isLocked })\<close>.
\<close>

definition codeEditorEffects :: "nat \<Rightarrow> session \<Rightarrow> session \<Rightarrow> session" where
  "codeEditorEffects now prev s =
     (let s1 = (case monaco s of
                  None \<Rightarrow> s
                | Some ed \<Rightarrow>
                    if code s \<noteq> code prev \<and> code s \<noteq> ed_value ed
                    then setValue now (code s) s else s);
          s2 = (if language s \<noteq> language prev \<and> monaco s1 \<noteq> None
                then handleCodeChange s now (getDefaultCode (language s)) s1 else s1);
          s3 = (if isEditorLocked s \<noteq> isEditorLocked prev
                then s2\<lparr>monaco := map_option (\<lambda>ed. ed\<lparr>ed_readOnly := isEditorLocked s\<rparr>) (monaco s2)\<rparr>
                else s2)
      in s3)"

text \<open>
  A handler has taken the state from \<open>prev\<close> to \<open>s\<close>: the page renders \<open>s\<close> and the
  effects run; what they set (\<open>code\<close>, through \<open>handleCodeChange\<close>) is rendered in turn,
  and the effects run again. The second round sets no state any more
  (\<open>codeEditorEffects_settled\<close> below), so the rendering ends there.
\<close>

definition rendered :: "nat \<Rightarrow> session \<Rightarrow> session \<Rightarrow> session" where
  "rendered now prev s =
     (let s1 = codeEditorEffects now prev s in codeEditorEffects now s s1)"

subsection \<open>The operations of a session\<close>

text \<open>
  What the user and the environment can do to a session. An operation that makes
  an external call carries the environment's outcome of that call. \<open>EditorLoaded\<close> is
  the Monaco script having loaded, \<open>CodeChange c\<close> the user typing in the editor so
  that it shows \<open>c\<close>, \<open>ModalSubmit\<close> the button of \<open>ComplexityModal\<close> with the two texts
  typed in, \<open>Idle\<close> lets time pass. Operations run one after the other, each handler
  to its end on the state it finds (no two calls in flight).
\<close>

datatype event =
    SetSkillLevel skill_level
  | LoadProblem problem
  | InitialMessage problem "string option fetch_result"
  | SetLanguage string
  | EditorLoaded
  | CodeChange string
  | SendMessage string "gemini_result fetch_result"
  | HintRequest "gemini_result fetch_result"
  | RunCode "sim_reply fetch_result"
  | SubmitClick
  | ModalSubmit string string "gemini_result fetch_result"
  | ModalClose
  | Idle

text \<open>
  The controls the components render and enable: \<open>ChatInterface.handleSend\<close> returns on
  a blank message; \<open>CodeEditor\<close> renders the Hint, Run and Submit buttons only under
  \<open>sessionState === "coding" && !isLocked\<close>; \<open>ComplexityModal\<close> renders nothing unless
  \<open>isOpen\<close>.
\<close>

fun enabled :: "event \<Rightarrow> session \<Rightarrow> bool" where
  "enabled (SendMessage m net) s = (js_trim m \<noteq> [])"
| "enabled (HintRequest net) s = (sessionState s = Coding \<and> \<not> isEditorLocked s)"
| "enabled (RunCode net) s = (sessionState s = Coding \<and> \<not> isEditorLocked s)"
| "enabled SubmitClick s = (sessionState s = Coding \<and> \<not> isEditorLocked s)"
| "enabled (ModalSubmit tc sc net) s = showComplexityModal s"
| "enabled ModalClose s = showComplexityModal s"
| "enabled e s = True"

text \<open>The requests the handlers post, answered by the routes.\<close>

definition fetch_mentor :: "gemini_result fetch_result \<Rightarrow> string \<Rightarrow> session \<Rightarrow> mentor_json fetch_result" where
  "fetch_mentor net m s = map_fetch (mentor_POST m (problem s) (sessionState s)) net"

definition fetch_hint :: "gemini_result fetch_result \<Rightarrow> session \<Rightarrow> hint_json fetch_result" where
  "fetch_hint net s = map_fetch (hint_POST (problem s) (skillLevel s) (hintsUsed s)) net"

definition fetch_run_code :: "sim_reply fetch_result \<Rightarrow> session \<Rightarrow> run_json fetch_result" where
  "fetch_run_code net s = map_fetch (\<lambda>r. fst (run_code_POST (code s) (language s) (problem s) r)) net"

definition fetch_evaluate ::
  "gemini_result fetch_result \<Rightarrow> string \<Rightarrow> string \<Rightarrow> session \<Rightarrow> evaluate_json fetch_result" where
  "fetch_evaluate net tc sc s =
     map_fetch (\<lambda>g. fst (evaluate_POST (code s) (problem s) (Some tc) (Some sc) g)) net"

text \<open>\<open>ComplexityModal.handleSubmit\<close>: \<open>onSubmit\<close> is called with the trimmed texts, and
  only when neither is blank.\<close>

definition modal_handleSubmit :: "gemini_result fetch_result \<Rightarrow> string \<Rightarrow> string \<Rightarrow> session \<Rightarrow> session" where
  "modal_handleSubmit net timeComplexity spaceComplexity s =
     (if js_trim timeComplexity = [] \<or> js_trim spaceComplexity = [] then s
      else handleComplexitySubmit
             (fetch_evaluate net (js_trim timeComplexity) (js_trim spaceComplexity) s) s)"

text \<open>What the operation itself does at time \<open>now\<close>: the handler of the latest render,
  or the editor.\<close>

fun handle :: "nat \<Rightarrow> event \<Rightarrow> session \<Rightarrow> session" where
  "handle now (SetSkillLevel l) s = s\<lparr>skillLevel := l\<rparr>"
| "handle now (LoadProblem p) s = s\<lparr>problem := Some p\<rparr>"
| "handle now (InitialMessage p d) s = handleInitialMessage d p s"
| "handle now (SetLanguage l) s = s\<lparr>language := l\<rparr>"
| "handle now EditorLoaded s = (if monaco s = None then initializeEditor firstRender s else s)"
| "handle now (CodeChange c) s = typeInEditor now c s"
| "handle now (SendMessage m net) s = handleSendMessage (fetch_mentor net m s) m s"
| "handle now (HintRequest net) s = handleHintRequest (fetch_hint net s) s"
| "handle now (RunCode net) s = handleRunCode (fetch_run_code net s) s"
| "handle now SubmitClick s = handleSubmitClick s"
| "handle now (ModalSubmit tc sc net) s = modal_handleSubmit net tc sc s"
| "handle now ModalClose s = s\<lparr>showComplexityModal := False\<rparr>"
| "handle now Idle s = s"

text \<open>An operation, with the rendering that follows it.\<close>

definition perform :: "nat \<Rightarrow> event \<Rightarrow> session \<Rightarrow> session" where
  "perform now e s = rendered now s (handle now e s)"

text \<open>One step: at time \<open>t\<close> the timeouts due by then run first, then the operation,
  if its control is there. A run is a list of timed operations.\<close>

definition step :: "(nat \<Rightarrow> (nat \<times> gemini_result) fetch_result) \<Rightarrow> nat \<times> event \<Rightarrow> session \<Rightarrow> session" where
  "step env te s =
     (let s' = advance env (fst te) s
      in if enabled (snd te) s' then perform (fst te) (snd te) s' else s')"

fun run :: "(nat \<Rightarrow> (nat \<times> gemini_result) fetch_result) \<Rightarrow> (nat \<times> event) list \<Rightarrow> session \<Rightarrow> session" where
  "run env [] s = s"
| "run env (te # tes) s = run env tes (step env te s)"

text \<open>
  An unlock condition fires at a step: the session is in the Approach phase and the
  mentor call of a sent message succeeds with \<open>unlockEditor\<close> set, which the route
  does on the unlock signal in the response or on an approach text longer than 30.
\<close>

fun unlockFires :: "event \<Rightarrow> session \<Rightarrow> bool" where
  "unlockFires (SendMessage m net) s =
     (enabled (SendMessage m net) s \<and> sessionState s = Approach \<and>
      (case fetch_mentor net m s of
         Fetched (MentorSuccess response unlockEditor newState) \<Rightarrow> unlockEditor
       | Fetched (MentorFailure st e) \<Rightarrow> False
       | FetchThrows \<Rightarrow> False))"
| "unlockFires e s = False"

fun unlockFired :: "(nat \<Rightarrow> (nat \<times> gemini_result) fetch_result) \<Rightarrow> (nat \<times> event) list \<Rightarrow> session \<Rightarrow> bool" where
  "unlockFired env [] s = False"
| "unlockFired env (te # tes) s =
     (unlockFires (snd te) (advance env (fst te) s) \<or> unlockFired env tes (step env te s))"

section \<open>The agent classes (\<open>lib/agents\<close>)\<close>

text \<open>
  \<open>AgentOrchestrator\<close> is constructed by the page with callbacks onto the session
  (\<open>onStateChange = setSessionState\<close>, \<open>onEditorUnlock\<close>, \<open>onHintUsed\<close>); the page calls
  none of its methods. Three of them, with the agents they call, given what the
  agent's fetch returned.
\<close>

definition evaluationFallback :: string where
  "evaluationFallback = ''Great job completing the solution! Here's a quick evaluation:''"

text \<open>\<open>EvaluationAgent.evaluateSubmission\<close> returns \<open>data.evaluation\<close>, which is
  \<open>undefined\<close> (\<open>None\<close>) on a failure body, and a fixed text (of which the model keeps
  the first line) when the fetch throws.\<close>

definition agent_evaluateSubmission :: "evaluate_json fetch_result \<Rightarrow> string option" where
  "agent_evaluateSubmission d =
     (case d of
        Fetched (EvaluateSuccess evaluation) \<Rightarrow> Some evaluation
      | Fetched (EvaluateFailure st e) \<Rightarrow> None
      | FetchThrows \<Rightarrow> Some evaluationFallback)"

definition orchestrator_evaluateSubmission :: "evaluate_json fetch_result \<Rightarrow> session \<Rightarrow> string option \<times> session" where
  "orchestrator_evaluateSubmission d s =
     (let evaluation = agent_evaluateSubmission d
      in (evaluation, s\<lparr>sessionState := Evaluation\<rparr>))"

definition agent_generateHint :: "hint_json fetch_result \<Rightarrow> string option" where
  "agent_generateHint d =
     (case d of
        Fetched (HintSuccess hint) \<Rightarrow> Some hint
      | Fetched (HintFailure st e) \<Rightarrow> None
      | FetchThrows \<Rightarrow> Some ''Try breaking down the problem into smaller steps.'')"

definition orchestrator_provideHint :: "hint_json fetch_result \<Rightarrow> session \<Rightarrow> string option \<times> session" where
  "orchestrator_provideHint d s =
     (let s1 = s\<lparr>hintsUsed := hintsUsed s + 1\<rparr>
      in (agent_generateHint d, s1))"

section \<open>Invariants and example sessions\<close>

text \<open>The relation between lock and phase that every reachable session keeps: the
  editor is locked exactly in the Approach phase, and the complexity modal is only
  open outside it.\<close>

definition lockInvariant :: "session \<Rightarrow> bool" where
  "lockInvariant s =
     ((isEditorLocked s \<longleftrightarrow> sessionState s = Approach) \<and>
      (showComplexityModal s \<longrightarrow> sessionState s \<noteq> Approach))"

text \<open>
  What every reachable session keeps about the inactivity timer: at most one timeout
  is pending; it is the one whose id \<open>inactivityTimerRef\<close> holds, it is due exactly
  3000 ms after the last edit, and it was armed in the Coding phase, with the editor
  unlocked, on code whose trimmed length exceeds 10.
\<close>

definition timerInvariant :: "session \<Rightarrow> bool" where
  "timerInvariant s =
     (length (pendingTimers s) \<le> 1 \<and>
      (\<forall>u \<in> set (pendingTimers s).
         inactivityTimer s = Some (timer_id u) \<and> due u = lastActivity s + 3000 \<and>
         t_sessionState u = Coding \<and> length (js_trim (t_code u)) > 10 \<and>
         \<not> isEditorLocked s))"

text \<open>
  A pasted text with exactly two example blocks: some text, \<open>Example N:\<close> and a body,
  \<open>Example M:\<close> and a body, where \<open>headerFree b rest\<close> says that no match of
  \<open>Example \d+:\<close> starts inside \<open>b\<close> when \<open>rest\<close> follows it. So the two headers are
  the only ones of the text.
\<close>

fun headerFree :: "string \<Rightarrow> string \<Rightarrow> bool" where
  "headerFree [] rest = True"
| "headerFree (c # cs) rest = (exampleHeader (c # cs @ rest) = None \<and> headerFree cs rest)"

definition exampleBlock :: "string \<Rightarrow> string \<Rightarrow> string" where
  "exampleBlock n b = ''Example '' @ n @ '':'' @ b"

definition twoExampleText :: "string \<Rightarrow> string \<Rightarrow> string \<Rightarrow> string \<Rightarrow> string \<Rightarrow> bool" where
  "twoExampleText pre n1 b1 n2 b2 =
     (n1 \<noteq> [] \<and> list_all isDigit n1 \<and> n2 \<noteq> [] \<and> list_all isDigit n2 \<and>
      headerFree pre (exampleBlock n1 b1 @ exampleBlock n2 b2) \<and>
      headerFree b1 (exampleBlock n2 b2) \<and>
      headerFree b2 [])"

text \<open>
  The body of an example with an Input line followed by an Output line: white space,
  \<open>Input:\<close>, white space, the input on one line, a line break (LF or CR LF, possibly
  with blank lines and indentation after it), \<open>Output:\<close>, white space, the output on
  one line, and a tail that is empty or starts a new line. The input and the output
  start with a character that is not white space, and the input does not contain
  the word \<open>output:\<close> in any case (the \<open>Output\<close> pattern is searched from the start of
  the block and ignores case).
\<close>

record example_parts =
  ex_lead :: string
  ex_gap1 :: string
  ex_input :: string
  ex_sep :: string
  ex_gap2 :: string
  ex_output :: string
  ex_tail :: string

definition exampleBody :: "example_parts \<Rightarrow> string" where
  "exampleBody e =
     ex_lead e @ ''Input:'' @ ex_gap1 e @ ex_input e @ ex_sep e @
     ''Output:'' @ ex_gap2 e @ ex_output e @ ex_tail e"

definition valueLine :: "string \<Rightarrow> bool" where
  "valueLine v =
     (startsWithP (\<lambda>c. \<not> isWhiteSpace c) v \<and> list_all (\<lambda>c. \<not> isLineTerminator c) v)"

definition wellFormedBody :: "example_parts \<Rightarrow> bool" where
  "wellFormedBody e =
     (list_all isWhiteSpace (ex_lead e) \<and> list_all isWhiteSpace (ex_gap1 e) \<and>
      startsWithP isLineTerminator (ex_sep e) \<and> list_all isWhiteSpace (ex_sep e) \<and>
      list_all isWhiteSpace (ex_gap2 e) \<and>
      valueLine (ex_input e) \<and> valueLine (ex_output e) \<and>
      \<not> js_includes (js_toLowerCase (ex_input e)) ''output:'' \<and>
      (ex_tail e = [] \<or> startsWithP isLineTerminator (ex_tail e)))"

text \<open>The test case \<open>generateTestCases\<close> builds from the match \<open>example\<close> at \<open>index\<close>.\<close>

definition testCaseOf :: "nat \<Rightarrow> string \<Rightarrow> test_case" where
  "testCaseOf index example =
     \<lparr>tc_id = index + 1,
      tc_input = fieldValue ''Input:'' example,
      expectedOutput = fieldValue ''Output:'' example,
      explanation = Some (explanationOf example)\<rparr>"

text \<open>A pasted problem text with two examples.\<close>

definition pastedPre :: string where
  "pastedPre = ''Pair Sum\<newline>Given an array of integers, find two that add up to a target.\<newline>\<newline>''"

definition pastedExample1 :: example_parts where
  "pastedExample1 =
     \<lparr>ex_lead = ''\<newline>'', ex_gap1 = '' '',
      ex_input = ''nums = [2,7,11,15], target = 9'', ex_sep = ''\<newline>'', ex_gap2 = '' '',
      ex_output = ''[0,1]'',
      ex_tail = ''\<newline>Explanation: Because nums[0] + nums[1] == 9.\<newline>\<newline>''\<rparr>"

definition pastedExample2 :: example_parts where
  "pastedExample2 =
     \<lparr>ex_lead = ''\<newline>'', ex_gap1 = '' '',
      ex_input = ''nums = [3,2,4], target = 6'', ex_sep = [CHR 0x0D, CHR 0x0A], ex_gap2 = '' '',
      ex_output = ''[1,2]  '',
      ex_tail = ''\<newline>''\<rparr>"

text \<open>A pasted problem with one example, and the session of a user who loaded it,
  described an approach (which unlocked the editor, loaded in the meantime) and
  typed a first line of code at time 2000.\<close>

definition exampleProblem :: problem where
  "exampleProblem =
     \<lparr>pid = ''custom'', title = ''Pair Sum'',
      description = ''Given an array of integers, find two that add up to a target.'',
      difficulty = ''beginner'',
      testCases = [\<lparr>tc_id = 1, tc_input = ''nums = [2,7,11,15], target = 9'',
                    expectedOutput = ''[0,1]'', explanation = Some []\<rparr>],
      constraints = Some []\<rparr>"

definition codingSession :: session where
  "codingSession =
     run (\<lambda>t. FetchThrows)
       [(0, LoadProblem exampleProblem),
        (500, EditorLoaded),
        (1000, SendMessage ''I will use a hash map to store seen values and check complements''
                 (Fetched (GeminiReply (Some ''Good approach! UNLOCK_EDITOR'')))),
        (2000, CodeChange ''function pairSum(nums, target) { }'')]
       (initialSession 0)"

text \<open>The scenario of a burst of edits: the operations of the example session
  (the last one a first line typed at 2 seconds), then the user types at 10, 11 and
  12 seconds, and nothing happens until 60 seconds.\<close>

definition typedEdits :: "(nat \<times> event) list" where
  "typedEdits =
     [(0, LoadProblem exampleProblem),
      (500, EditorLoaded),
      (1000, SendMessage ''I will use a hash map to store seen values and check complements''
               (Fetched (GeminiReply (Some ''Good approach! UNLOCK_EDITOR'')))),
      (2000, CodeChange ''function pairSum(nums, target) { }''),
      (10000, CodeChange ''function f(a) {''),
      (11000, CodeChange ''function f(a) { ret''),
      (12000, CodeChange ''function f(a) { return a }''),
      (60000, Idle)]"

section \<open>Verified properties\<close>

subsection \<open>The LeetCode test-case parser\<close>

lemma parseTestCases_loop_eq:
  "even i \<Longrightarrow>
   parseTestCases_loop lines i acc =
     acc @ map (\<lambda>k. \<lparr>tc_id = k + 1, tc_input = js_trim (lines ! (2 * k)),
                       expectedOutput = js_trim (lines ! (2 * k + 1)), explanation = None\<rparr>)
               [i div 2 ..< length lines div 2]"
proof (induction lines i acc rule: parseTestCases_loop.induct)
  case (1 lines i acc)
  show ?case
  proof (cases "i < length lines")
    case False
    then have "length lines div 2 \<le> i div 2" by (simp add: div_le_mono)
    with False show ?thesis by (simp add: parseTestCases_loop.simps)
  next
    case True
    note lt = True
    have ev: "even (i + 2)" using "1.prems" by simp
    have i2: "2 * (i div 2) = i" using "1.prems" by simp
    show ?thesis
    proof (cases "i + 1 < length lines")
      case True
      then have "i div 2 < length lines div 2" using "1.prems" by (elim evenE) auto
      then have "[i div 2 ..< length lines div 2] = (i div 2) # [i div 2 + 1 ..< length lines div 2]"
        by (simp add: upt_conv_Cons)
      with "1.IH"[OF lt ev] lt True i2 show ?thesis
        by (subst parseTestCases_loop.simps) simp
    next
      case False
      with lt have "length lines = i + 1" by simp
      then have "length lines div 2 = i div 2" using "1.prems" by (elim evenE) auto
      with "1.IH"[OF lt ev] lt False show ?thesis
        by (subst parseTestCases_loop.simps) simp
    qed
  qed
qed

text \<open>
  C10. \<open>parseTestCases\<close> pairs the non-blank lines of the raw string as alternating
  input and expected output, a line being non-blank when \<open>line.trim()\<close> is not empty
  (\<open>nonBlankLines\<close>, the filter of the source). With \<open>N\<close> such lines the result has
  exactly \<open>N div 2\<close> test cases; test case \<open>k\<close> (from 0) has id \<open>k + 1\<close> and holds
  lines \<open>2k\<close> and \<open>2k + 1\<close>, trimmed, so the order is kept and a trailing unpaired
  line is dropped; an absent and an empty string give the empty list.
\<close>

theorem parseTestCases_pairs_lines:
  "parseTestCases None = [] \<and> parseTestCases (Some []) = [] \<and>
   length (parseTestCases (Some s)) = length (nonBlankLines s) div 2 \<and>
   (\<forall>k < length (nonBlankLines s) div 2.
      parseTestCases (Some s) ! k =
        \<lparr>tc_id = k + 1, tc_input = js_trim (nonBlankLines s ! (2 * k)),
         expectedOutput = js_trim (nonBlankLines s ! (2 * k + 1)), explanation = None\<rparr>)"
proof -
  have empty: "nonBlankLines [] = []"
    by (simp add: nonBlankLines_def js_trim_def)
  have eq: "parseTestCases (Some s) =
      map (\<lambda>k. \<lparr>tc_id = k + 1, tc_input = js_trim (nonBlankLines s ! (2 * k)),
                  expectedOutput = js_trim (nonBlankLines s ! (2 * k + 1)), explanation = None\<rparr>)
          [0 ..< length (nonBlankLines s) div 2]"
  proof (cases "s = []")
    case True
    then show ?thesis by (simp add: parseTestCases_def empty)
  next
    case False
    then show ?thesis
      using parseTestCases_loop_eq [of 0 "nonBlankLines s" "[]"]
      by (simp add: parseTestCases_def)
  qed
  show ?thesis
    by (simp add: eq) (simp add: parseTestCases_def)
qed

text \<open>Five non-blank lines (and a blank one): two test cases, the fifth line dropped.\<close>

theorem parseTestCases_pairs_lines_witness:
  "length (nonBlankLines ''[2,7,11,15]\<newline>9\<newline>  \<newline>[3,2,4]\<newline>6\<newline>[3,3]'') = 5 \<and>
   length (parseTestCases (Some ''[2,7,11,15]\<newline>9\<newline>  \<newline>[3,2,4]\<newline>6\<newline>[3,3]'')) = 2 \<and>
   parseTestCases (Some ''[2,7,11,15]\<newline>9\<newline>  \<newline>[3,2,4]\<newline>6\<newline>[3,3]'') ! 1 =
     \<lparr>tc_id = 2, tc_input = ''[3,2,4]'', expectedOutput = ''6'', explanation = None\<rparr>"
proof -
  let ?s = "''[2,7,11,15]\<newline>9\<newline>  \<newline>[3,2,4]\<newline>6\<newline>[3,3]''"
  have nb: "nonBlankLines ?s = [''[2,7,11,15]'', ''9'', ''[3,2,4]'', ''6'', ''[3,3]'']"
    by (simp add: nonBlankLines_def js_trim_def isWhiteSpace_def)
  have k: "(1::nat) < length (nonBlankLines ?s) div 2"
    by (simp add: nb)
  from parseTestCases_pairs_lines [of ?s] k
  have "length (parseTestCases (Some ?s)) = length (nonBlankLines ?s) div 2"
    and "parseTestCases (Some ?s) ! 1 =
        \<lparr>tc_id = 1 + 1, tc_input = js_trim (nonBlankLines ?s ! (2 * 1)),
         expectedOutput = js_trim (nonBlankLines ?s ! (2 * 1 + 1)), explanation = None\<rparr>"
    by blast+
  then show ?thesis
    by (simp add: nb js_trim_def isWhiteSpace_def)
qed

text \<open>
  Counted as the lines that are not the empty string, the rule fails: a line of one
  space is dropped by the filter, so four such lines give one test case and not two,
  and the second line of the pair is not the line that follows the first.
\<close>

theorem parseTestCases_blank_line_counterexample:
  "length (nonEmptyLines ''[2,7]\<newline> \<newline>9\<newline>[3,3]'') = 4 \<and>
   parseTestCases (Some ''[2,7]\<newline> \<newline>9\<newline>[3,3]'') =
     [\<lparr>tc_id = 1, tc_input = ''[2,7]'', expectedOutput = ''9'', explanation = None\<rparr>] \<and>
   length (parseTestCases (Some ''[2,7]\<newline> \<newline>9\<newline>[3,3]'')) \<noteq>
     length (nonEmptyLines ''[2,7]\<newline> \<newline>9\<newline>[3,3]'') div 2"
  by (simp add: nonEmptyLines_def parseTestCases_def nonBlankLines_def
      parseTestCases_loop.simps js_trim_def isWhiteSpace_def)

subsection \<open>The hint route\<close>

lemma textOr_nonempty: "d \<noteq> [] \<Longrightarrow> textOr t d \<noteq> []"
  by (cases t) auto

text \<open>
  C9. For a hint request with a problem, the hint route answers \<open>success: true\<close> with a
  non-empty hint whatever the LLM call does: the wrapper \<open>callGeminiAPI\<close> never
  throws (its result is always \<open>Inr\<close>) and returns a fixed non-empty text when the
  call fails or the reply has no text. So the \<open>catch\<close> branch that picks
  \<open>FALLBACK_HINTS[skillLevel][hintsUsed % length]\<close> is never taken: the answer is the
  wrapper's text, and it does not depend on \<open>skillLevel\<close> or \<open>hintsUsed\<close>.
\<close>

theorem hint_route_never_reaches_fallback:
  "(\<exists>h. callGeminiAPI_hint g = Inr h \<and> h \<noteq> [] \<and>
        hint_POST (Some p) lvl n g = HintSuccess h) \<and>
   hint_POST (Some p) lvl n GeminiError =
     HintSuccess ''Consider what data structure might help you solve this efficiently.'' \<and>
   hint_POST (Some p) lvl n (GeminiReply None) =
     HintSuccess ''Try breaking down the problem into smaller steps.'' \<and>
   hint_POST (Some p) lvl n g = hint_POST (Some p) lvl' n' g"
proof -
  obtain h where h: "callGeminiAPI_hint g = Inr h" "h \<noteq> []"
    by (cases g) (auto simp: textOr_nonempty)
  then show ?thesis
    by (simp add: hint_POST_def)
qed

text \<open>A failed LLM call for an advanced user with one hint used: the answer is the
  wrapper's text, not the entry of the fallback list.\<close>

theorem hint_route_never_reaches_fallback_witness:
  "hint_POST (Some \<lparr>pid = ''1'', title = ''1. Two Sum'', description = ''Given an array'',
                      difficulty = ''Easy'', testCases = [], constraints = None\<rparr>)
      Advanced 1 GeminiError =
   HintSuccess ''Consider what data structure might help you solve this efficiently.'' \<and>
   FALLBACK_HINTS Advanced ! (1 mod length (FALLBACK_HINTS Advanced)) =
     ''Consider if this problem has optimal substructure for dynamic programming''"
  using hint_route_never_reaches_fallback
    [of GeminiError "\<lparr>pid = ''1'', title = ''1. Two Sum'', description = ''Given an array'',
                      difficulty = ''Easy'', testCases = [], constraints = None\<rparr>" Advanced 1]
  by simp

subsection \<open>Validation in the run-code and evaluation routes\<close>

text \<open>
  C8. Requests that miss a precondition are answered with a validation error and the
  action is not attempted. The run-code route, given a problem whose list of test
  cases is empty, answers \<open>success: false\<close> (with the message "No test cases
  available for this problem" when code and language are there) and makes no call of
  the execution service; with test cases it makes one. The evaluation route, given a
  request without both a time and a space complexity, answers \<open>success: false\<close> with
  its validation message and makes no LLM call; with code, problem and both
  estimates it makes one. The modal of the page does not submit at all while one of
  the two fields is blank.
\<close>

theorem missing_preconditions_rejected:
  "(testCases p = [] \<longrightarrow>
      (\<exists>st e. run_code_POST c l (Some p) r = (RunFailure st e, 0))) \<and>
   (c \<noteq> [] \<and> l \<noteq> [] \<and> testCases p = [] \<longrightarrow>
      run_code_POST c l (Some p) r =
        (RunFailure 400 ''No test cases available for this problem'', 0)) \<and>
   (c \<noteq> [] \<and> l \<noteq> [] \<and> testCases p \<noteq> [] \<longrightarrow>
      (\<exists>results allPassed. run_code_POST c l (Some p) r = (RunSuccess results allPassed, 1))) \<and>
   (\<not> (truthy tc \<and> truthy sc) \<longrightarrow>
      evaluate_POST c prob tc sc g =
        (EvaluateFailure 400 ''Code, problem, and complexity analysis are required'', 0)) \<and>
   (c \<noteq> [] \<and> prob \<noteq> None \<and> truthy tc \<and> truthy sc \<longrightarrow>
      (\<exists>evaluation. evaluate_POST c prob tc sc g = (EvaluateSuccess evaluation, 1))) \<and>
   (js_trim tc' = [] \<or> js_trim sc' = [] \<longrightarrow> modal_handleSubmit net tc' sc' s = s)"
proof -
  have "\<exists>e. callGeminiAPI_evaluate g = Inr e" by (cases g) auto
  then show ?thesis
    by (auto simp: run_code_POST_def evaluate_POST_def modal_handleSubmit_def Let_def)
qed

text \<open>A problem without test cases, and a submission with a time complexity only.\<close>

theorem missing_preconditions_rejected_witness:
  "run_code_POST ''function f() {}'' ''javascript''
     (Some \<lparr>pid = ''custom'', title = ''T'', description = ''D'', difficulty = ''beginner'',
            testCases = [], constraints = Some []\<rparr>)
     (SimJson [] True) =
     (RunFailure 400 ''No test cases available for this problem'', 0) \<and>
   evaluate_POST ''function f() {}''
     (Some \<lparr>pid = ''custom'', title = ''T'', description = ''D'', difficulty = ''beginner'',
            testCases = [], constraints = Some []\<rparr>)
     (Some ''O(n)'') None (GeminiReply (Some ''Well done'')) =
     (EvaluateFailure 400 ''Code, problem, and complexity analysis are required'', 0) \<and>
   modal_handleSubmit (Fetched GeminiError) ''O(n)'' ''  '' (initialSession 0) = initialSession 0"
  using missing_preconditions_rejected
    [of "\<lparr>pid = ''custom'', title = ''T'', description = ''D'', difficulty = ''beginner'',
            testCases = [], constraints = Some []\<rparr>"
        "''function f() {}''" "''javascript''" "SimJson [] True" "Some ''O(n)''" None
        "Some \<lparr>pid = ''custom'', title = ''T'', description = ''D'', difficulty = ''beginner'',
            testCases = [], constraints = Some []\<rparr>"
        "GeminiReply (Some ''Well done'')" "''O(n)''" "''  ''" "Fetched GeminiError"
        "initialSession 0"]
  by (simp add: js_trim_def isWhiteSpace_def)

subsection \<open>Unlocking the editor\<close>

text \<open>
  C1. In the Approach phase, a successful mentor call (the request carries a message
  and a problem, and the route answers \<open>success: true\<close>) unlocks the editor and moves
  the phase to Coding whenever the route's unlock condition holds of the LLM's
  response and the approach text: the response contains the unlock signal, or the
  approach text is longer than 30 characters. In particular a message longer than 30
  characters unlocks whatever the response says (also when the LLM call failed and
  the response is the wrapper's apology). Otherwise lock and phase stay as they were.
\<close>

theorem approach_unlock:
  assumes "sessionState s = Approach" and "problem s = Some p" and "m \<noteq> []"
    and "callGeminiAPI_mentor g = Inr response"
  shows "(\<exists>shown. fetch_mentor (Fetched g) m s =
            Fetched (MentorSuccess shown (shouldUnlockEditor response m)
                       (if shouldUnlockEditor response m then Coding else Approach))) \<and>
         (shouldUnlockEditor response m \<longrightarrow>
            \<not> isEditorLocked (handleSendMessage (fetch_mentor (Fetched g) m s) m s) \<and>
            sessionState (handleSendMessage (fetch_mentor (Fetched g) m s) m s) = Coding) \<and>
         (js_includes response ''UNLOCK_EDITOR'' \<or> length m > 30 \<longrightarrow>
            \<not> isEditorLocked (handleSendMessage (fetch_mentor (Fetched g) m s) m s) \<and>
            sessionState (handleSendMessage (fetch_mentor (Fetched g) m s) m s) = Coding) \<and>
         (\<not> shouldUnlockEditor response m \<longrightarrow>
            isEditorLocked (handleSendMessage (fetch_mentor (Fetched g) m s) m s) = isEditorLocked s \<and>
            sessionState (handleSendMessage (fetch_mentor (Fetched g) m s) m s) = Approach)"
proof -
  have su: "js_includes response ''UNLOCK_EDITOR'' \<or> length m > 30 \<Longrightarrow> shouldUnlockEditor response m"
    by (auto simp: shouldUnlockEditor_def)
  have fm: "fetch_mentor (Fetched g) m s =
      Fetched (MentorSuccess (js_trim (js_replace response ''UNLOCK_EDITOR'' []))
        (shouldUnlockEditor response m)
        (if shouldUnlockEditor response m then Coding else Approach))"
    using assms by (simp add: fetch_mentor_def mentor_POST_def Let_def)
  have yes: "shouldUnlockEditor response m \<Longrightarrow>
      \<not> isEditorLocked (handleSendMessage (fetch_mentor (Fetched g) m s) m s) \<and>
      sessionState (handleSendMessage (fetch_mentor (Fetched g) m s) m s) = Coding"
    using assms(1) by (simp add: fm handleSendMessage_def Let_def addMessage_def showToast_def)
  have no: "\<not> shouldUnlockEditor response m \<Longrightarrow>
      isEditorLocked (handleSendMessage (fetch_mentor (Fetched g) m s) m s) = isEditorLocked s \<and>
      sessionState (handleSendMessage (fetch_mentor (Fetched g) m s) m s) = Approach"
    using assms(1) by (simp add: fm handleSendMessage_def Let_def addMessage_def showToast_def)
  from fm yes no su show ?thesis by blast
qed

text \<open>The scenario of the specification: an approach of 64 characters, a response
  without any unlock signal; the editor unlocks and the phase is Coding.\<close>

theorem approach_unlock_witness:
  "length ''I will use a hash map to store seen values and check complements'' = 64 \<and>
   \<not> js_includes ''That is not it. Think again.'' ''UNLOCK_EDITOR'' \<and>
   \<not> isEditorLocked
       (handleSendMessage
          (fetch_mentor (Fetched (GeminiReply (Some ''That is not it. Think again.'')))
             ''I will use a hash map to store seen values and check complements''
             ((initialSession 0)\<lparr>problem := Some \<lparr>pid = ''1'', title = ''1. Two Sum'',
                 description = ''Given an array'', difficulty = ''Easy'', testCases = [],
                 constraints = None\<rparr>\<rparr>))
          ''I will use a hash map to store seen values and check complements''
          ((initialSession 0)\<lparr>problem := Some \<lparr>pid = ''1'', title = ''1. Two Sum'',
                 description = ''Given an array'', difficulty = ''Easy'', testCases = [],
                 constraints = None\<rparr>\<rparr>)) \<and>
   sessionState
       (handleSendMessage
          (fetch_mentor (Fetched (GeminiReply (Some ''That is not it. Think again.'')))
             ''I will use a hash map to store seen values and check complements''
             ((initialSession 0)\<lparr>problem := Some \<lparr>pid = ''1'', title = ''1. Two Sum'',
                 description = ''Given an array'', difficulty = ''Easy'', testCases = [],
                 constraints = None\<rparr>\<rparr>))
          ''I will use a hash map to store seen values and check complements''
          ((initialSession 0)\<lparr>problem := Some \<lparr>pid = ''1'', title = ''1. Two Sum'',
                 description = ''Given an array'', difficulty = ''Easy'', testCases = [],
                 constraints = None\<rparr>\<rparr>)) = Coding"
proof -
  let ?p = "\<lparr>pid = ''1'', title = ''1. Two Sum'', description = ''Given an array'',
             difficulty = ''Easy'', testCases = [], constraints = None\<rparr>"
  let ?s = "(initialSession 0)\<lparr>problem := Some ?p\<rparr>"
  let ?m = "''I will use a hash map to store seen values and check complements''"
  let ?g = "GeminiReply (Some ''That is not it. Think again.'')"
  have 1: "sessionState ?s = Approach" by (simp add: initialSession_def)
  have 2: "problem ?s = Some ?p" by simp
  have 3: "?m \<noteq> []" by simp
  have 4: "callGeminiAPI_mentor ?g = Inr ''That is not it. Think again.''" by simp
  have 5: "js_includes ''That is not it. Think again.'' ''UNLOCK_EDITOR'' \<or> length ?m > 30" by simp
  from approach_unlock [OF 1 2 3 4] 5
  have "\<not> isEditorLocked (handleSendMessage (fetch_mentor (Fetched ?g) ?m ?s) ?m ?s) \<and>
        sessionState (handleSendMessage (fetch_mentor (Fetched ?g) ?m ?s) ?m ?s) = Coding"
    by blast
  moreover have "length ?m = 64" by simp
  moreover have "\<not> js_includes ''That is not it. Think again.'' ''UNLOCK_EDITOR''" by simp
  ultimately show ?thesis by blast
qed

subsection \<open>Evaluating a session, and what the timer leaves alone\<close>

lemmas eval_simps =
  step_def advance_def fireTimer_def Let_def perform_def rendered_def codeEditorEffects_def
  setValue_def typeInEditor_def contentListener_def initializeEditor_def firstRender_def
  getDefaultCode_def
  handleSendMessage_def handleHintRequest_def handleRunCode_def handleSubmitClick_def
  modal_handleSubmit_def handleComplexitySubmit_def handleCodeChange_def handleInitialMessage_def
  handleAutomaticHint_def clearTimeout_def setTimeout_def showToast_def addMessage_def
  fetch_mentor_def fetch_hint_def fetch_run_code_def fetch_evaluate_def
  mentor_POST_def hint_POST_def evaluate_POST_def run_code_POST_def
  shouldUnlockEditor_def js_trim_def isWhiteSpace_def initialSession_def

lemma codingSession_eq:
  "codingSession =
     \<lparr>skillLevel = Beginner, problem = Some exampleProblem,
      code = ''function pairSum(nums, target) { }'', language = ''javascript'',
      isEditorLocked = False,
      chatMessages =
        [\<lparr>role = User, content = ''I will use a hash map to store seen values and check complements''\<rparr>,
         \<lparr>role = Assistant, content = ''Good approach!''\<rparr>],
      testResults = [],
      toasts = [(''Code editor unlocked! You can start coding now.'', ToastSuccess)],
      sessionState = Coding,
      userApproach = ''I will use a hash map to store seen values and check complements'',
      hintsUsed = 0, isLoading = False, showComplexityModal = False, lastActivity = 2000,
      inactivityTimer = None, lastCode = [], pendingTimers = [], nextTimerId = 1,
      autoHintCalls = [],
      monaco = Some \<lparr>ed_value = ''function pairSum(nums, target) { }'', ed_readOnly = False\<rparr>\<rparr>"
  by code_simp

lemma foldl_frame:
  assumes "\<And>s u. f (g s u) = f s"
  shows "f (foldl g s us) = f s"
  by (induction us arbitrary: s) (simp_all add: assms)

lemma fireTimer_frame:
  "isEditorLocked (fireTimer env now t s) = isEditorLocked s"
  "sessionState (fireTimer env now t s) = sessionState s"
  "showComplexityModal (fireTimer env now t s) = showComplexityModal s"
  "hintsUsed (fireTimer env now t s) = hintsUsed s"
  "problem (fireTimer env now t s) = problem s"
  "chatMessages (fireTimer env now t s) = chatMessages s"
  by (simp_all add: fireTimer_def handleAutomaticHint_def showToast_def Let_def
        split: fetch_result.splits automatic_json.splits)

lemma advance_frame:
  "isEditorLocked (advance env t s) = isEditorLocked s"
  "sessionState (advance env t s) = sessionState s"
  "showComplexityModal (advance env t s) = showComplexityModal s"
  "hintsUsed (advance env t s) = hintsUsed s"
  "problem (advance env t s) = problem s"
  "chatMessages (advance env t s) = chatMessages s"
  unfolding advance_def
  by (rule foldl_frame, simp add: fireTimer_frame)+

text \<open>The editor and the effects of \<open>CodeEditor\<close> change the code, the refs, the timeouts
  and the editor itself, and nothing else.\<close>

lemma handleCodeChange_frame:
  "isEditorLocked (handleCodeChange r now c s) = isEditorLocked s"
  "sessionState (handleCodeChange r now c s) = sessionState s"
  "showComplexityModal (handleCodeChange r now c s) = showComplexityModal s"
  "hintsUsed (handleCodeChange r now c s) = hintsUsed s"
  "problem (handleCodeChange r now c s) = problem s"
  "chatMessages (handleCodeChange r now c s) = chatMessages s"
  "language (handleCodeChange r now c s) = language s"
  "autoHintCalls (handleCodeChange r now c s) = autoHintCalls s"
  "monaco (handleCodeChange r now c s) = monaco s"
  "code (handleCodeChange r now c s) = c"
  "lastActivity (handleCodeChange r now c s) = now"
  by (auto simp: handleCodeChange_def clearTimeout_def setTimeout_def Let_def split: option.splits)

lemma setValue_frame:
  "isEditorLocked (setValue now v s) = isEditorLocked s"
  "sessionState (setValue now v s) = sessionState s"
  "showComplexityModal (setValue now v s) = showComplexityModal s"
  "hintsUsed (setValue now v s) = hintsUsed s"
  "problem (setValue now v s) = problem s"
  "chatMessages (setValue now v s) = chatMessages s"
  "language (setValue now v s) = language s"
  "autoHintCalls (setValue now v s) = autoHintCalls s"
  "(monaco (setValue now v s) = None) = (monaco s = None)"
  "code (setValue now v s) = (if monaco s = None then code s else v)"
  by (simp_all add: setValue_def contentListener_def handleCodeChange_frame split: option.splits)

lemma typeInEditor_frame:
  "isEditorLocked (typeInEditor now v s) = isEditorLocked s"
  "sessionState (typeInEditor now v s) = sessionState s"
  "showComplexityModal (typeInEditor now v s) = showComplexityModal s"
  "hintsUsed (typeInEditor now v s) = hintsUsed s"
  "problem (typeInEditor now v s) = problem s"
  "chatMessages (typeInEditor now v s) = chatMessages s"
  "language (typeInEditor now v s) = language s"
  "autoHintCalls (typeInEditor now v s) = autoHintCalls s"
  by (simp_all add: typeInEditor_def setValue_frame split: option.splits)

lemma codeEditorEffects_frame:
  "isEditorLocked (codeEditorEffects now prev s) = isEditorLocked s"
  "sessionState (codeEditorEffects now prev s) = sessionState s"
  "showComplexityModal (codeEditorEffects now prev s) = showComplexityModal s"
  "hintsUsed (codeEditorEffects now prev s) = hintsUsed s"
  "problem (codeEditorEffects now prev s) = problem s"
  "chatMessages (codeEditorEffects now prev s) = chatMessages s"
  "language (codeEditorEffects now prev s) = language s"
  "autoHintCalls (codeEditorEffects now prev s) = autoHintCalls s"
  by (simp_all add: codeEditorEffects_def Let_def handleCodeChange_frame setValue_frame
        split: option.splits)

lemma rendered_frame:
  "isEditorLocked (rendered now prev s) = isEditorLocked s"
  "sessionState (rendered now prev s) = sessionState s"
  "showComplexityModal (rendered now prev s) = showComplexityModal s"
  "hintsUsed (rendered now prev s) = hintsUsed s"
  "problem (rendered now prev s) = problem s"
  "chatMessages (rendered now prev s) = chatMessages s"
  "language (rendered now prev s) = language s"
  "autoHintCalls (rendered now prev s) = autoHintCalls s"
  by (simp_all add: rendered_def Let_def codeEditorEffects_frame)

text \<open>Effects run only when a dependency changed, and the second round of a
  rendering leaves nothing for a third.\<close>

lemma codeEditorEffects_same:
  assumes "code s = code prev" and "language s = language prev"
    and "isEditorLocked s = isEditorLocked prev"
  shows "codeEditorEffects now prev s = s"
  using assms by (simp add: codeEditorEffects_def split: option.splits)

lemma rendered_same:
  assumes "code s = code prev" and "language s = language prev"
    and "isEditorLocked s = isEditorLocked prev"
  shows "rendered now prev s = s"
  using assms by (simp add: rendered_def codeEditorEffects_same)

lemma codeEditorEffects_settled:
  "codeEditorEffects now (codeEditorEffects now prev s) (rendered now prev s) = rendered now prev s"
proof -
  define s1 where "s1 = codeEditorEffects now prev s"
  define s2 where "s2 = codeEditorEffects now s s1"
  have same: "language s1 = language s" "isEditorLocked s1 = isEditorLocked s"
    by (simp_all add: s1_def codeEditorEffects_frame)
  have "code s2 = code s1"
    using same
    by (simp add: s2_def codeEditorEffects_def Let_def setValue_frame split: option.splits)
  moreover have "language s2 = language s1" "isEditorLocked s2 = isEditorLocked s1"
    by (simp_all add: s2_def codeEditorEffects_frame)
  ultimately have "codeEditorEffects now s1 s2 = s2"
    by (rule codeEditorEffects_same)
  then show ?thesis
    by (simp add: rendered_def Let_def s1_def s2_def)
qed

subsection \<open>The editor lock\<close>

lemma advance_lockInvariant: "lockInvariant (advance env t s) = lockInvariant s"
  by (simp add: lockInvariant_def advance_frame)

lemma handle_lock:
  assumes "lockInvariant s" and "enabled e s"
  shows "lockInvariant (handle t e s) \<and>
         isEditorLocked (handle t e s) = (isEditorLocked s \<and> \<not> unlockFires e s)"
proof (cases e)
  case (SendMessage m net)
  show ?thesis
  proof (cases net)
    case FetchThrows
    with SendMessage assms show ?thesis
      by (auto simp: lockInvariant_def handleSendMessage_def fetch_mentor_def addMessage_def Let_def)
  next
    case (Fetched g)
    obtain r where r: "callGeminiAPI_mentor g = Inr r" by (cases g) auto
    from SendMessage assms have "m \<noteq> []" by (auto simp: js_trim_def)
    with SendMessage Fetched assms r show ?thesis
      by (cases "problem s")
         (auto simp: lockInvariant_def handleSendMessage_def fetch_mentor_def mentor_POST_def
            addMessage_def showToast_def Let_def)
  qed
next
  case (ModalSubmit tc sc net)
  with assms show ?thesis
    by (auto simp: lockInvariant_def modal_handleSubmit_def handleComplexitySubmit_def
          showToast_def addMessage_def split: fetch_result.splits evaluate_json.splits)
next
  case (HintRequest net)
  with assms show ?thesis
    by (auto simp: lockInvariant_def handleHintRequest_def showToast_def Let_def
          split: fetch_result.splits hint_json.splits)
next
  case (RunCode net)
  with assms show ?thesis
    by (auto simp: lockInvariant_def handleRunCode_def showToast_def Let_def
          split: fetch_result.splits run_json.splits)
next
  case (CodeChange c)
  with assms show ?thesis
    by (simp add: lockInvariant_def typeInEditor_frame)
next
  case (InitialMessage p d)
  with assms show ?thesis
    by (auto simp: lockInvariant_def handleInitialMessage_def
          split: fetch_result.splits option.splits)
qed (use assms in \<open>auto simp: lockInvariant_def handleSubmitClick_def initializeEditor_def\<close>)

lemma perform_lock:
  assumes "lockInvariant s" and "enabled e s"
  shows "lockInvariant (perform t e s) \<and>
         isEditorLocked (perform t e s) = (isEditorLocked s \<and> \<not> unlockFires e s)"
  using handle_lock [OF assms, of t]
  by (auto simp: perform_def lockInvariant_def rendered_frame)

lemma step_lock:
  assumes "lockInvariant s"
  shows "lockInvariant (step env te s) \<and>
         isEditorLocked (step env te s) =
           (isEditorLocked s \<and> \<not> unlockFires (snd te) (advance env (fst te) s))"
proof (cases "enabled (snd te) (advance env (fst te) s)")
  case True
  with perform_lock [of "advance env (fst te) s" "snd te" "fst te"] assms show ?thesis
    by (simp add: step_def Let_def advance_lockInvariant advance_frame)
next
  case False
  then have "\<not> unlockFires (snd te) (advance env (fst te) s)"
    by (cases "snd te") auto
  with False assms show ?thesis
    by (simp add: step_def Let_def advance_lockInvariant advance_frame)
qed

lemma run_lock:
  "lockInvariant s \<Longrightarrow>
   lockInvariant (run env tes s) \<and>
   isEditorLocked (run env tes s) = (isEditorLocked s \<and> \<not> unlockFired env tes s)"
proof (induction tes arbitrary: s)
  case Nil
  then show ?case by simp
next
  case (Cons te tes)
  from step_lock [OF Cons.prems, of env te] Cons.IH [of "step env te s"]
  show ?case by auto
qed

lemma handle_stays_unlocked: "\<not> isEditorLocked s \<Longrightarrow> \<not> isEditorLocked (handle t e s)"
  by (cases e)
     (auto simp: handleSendMessage_def handleHintRequest_def handleRunCode_def handleSubmitClick_def
        modal_handleSubmit_def handleComplexitySubmit_def typeInEditor_frame handleInitialMessage_def
        initializeEditor_def showToast_def addMessage_def Let_def
        split: fetch_result.splits mentor_json.splits hint_json.splits run_json.splits
          evaluate_json.splits option.splits)

lemma perform_stays_unlocked: "\<not> isEditorLocked s \<Longrightarrow> \<not> isEditorLocked (perform t e s)"
  by (simp add: perform_def rendered_frame handle_stays_unlocked)

lemma step_stays_unlocked: "\<not> isEditorLocked s \<Longrightarrow> \<not> isEditorLocked (step env te s)"
  by (simp add: step_def Let_def perform_stays_unlocked advance_frame)

lemma run_stays_unlocked: "\<not> isEditorLocked s \<Longrightarrow> \<not> isEditorLocked (run env tes s)"
  by (induction tes arbitrary: s) (simp_all add: step_stays_unlocked)

text \<open>
  C2. For every session, that is, every run of timed operations from the state on
  page load, under every behaviour of the network and the LLM: the editor is locked
  exactly when the phase is Approach and no unlock condition has fired so far (a
  successful mentor call in the Approach phase whose answer sets \<open>unlockEditor\<close>, on
  the unlock signal or on an approach text longer than 30); indeed it is locked
  exactly when none has fired. And from any state whatever, no step and no run
  locks an unlocked editor again.
\<close>

theorem editor_lock_invariant:
  "(isEditorLocked (run env tes (initialSession t0)) \<longleftrightarrow>
      sessionState (run env tes (initialSession t0)) = Approach \<and>
      \<not> unlockFired env tes (initialSession t0)) \<and>
   (isEditorLocked (run env tes (initialSession t0)) \<longleftrightarrow>
      \<not> unlockFired env tes (initialSession t0)) \<and>
   (\<not> isEditorLocked s \<longrightarrow> \<not> isEditorLocked (step env te s)) \<and>
   (\<not> isEditorLocked s \<longrightarrow> \<not> isEditorLocked (run env tes' s))"
proof -
  have init: "lockInvariant (initialSession t0)" "isEditorLocked (initialSession t0)"
    by (simp_all add: lockInvariant_def initialSession_def)
  from run_lock [OF init(1), of env tes] init(2)
  have "lockInvariant (run env tes (initialSession t0))"
    and "isEditorLocked (run env tes (initialSession t0)) = (\<not> unlockFired env tes (initialSession t0))"
    by simp_all
  then show ?thesis
    using step_stays_unlocked [of s env te] run_stays_unlocked [of s env tes']
    by (auto simp: lockInvariant_def)
qed

text \<open>A short approach with a reply that carries no signal leaves the editor locked
  in the Approach phase; the example session, where the signal came, is unlocked
  and stays so when the user opens the modal and submits.\<close>

theorem editor_lock_invariant_witness:
  "isEditorLocked
     (run (\<lambda>t. FetchThrows)
        [(0, LoadProblem exampleProblem),
         (1000, SendMessage ''use a map'' (Fetched (GeminiReply (Some ''Tell me more.''))))]
        (initialSession 0)) \<and>
   sessionState
     (run (\<lambda>t. FetchThrows)
        [(0, LoadProblem exampleProblem),
         (1000, SendMessage ''use a map'' (Fetched (GeminiReply (Some ''Tell me more.''))))]
        (initialSession 0)) = Approach \<and>
   \<not> isEditorLocked codingSession \<and>
   \<not> isEditorLocked
       (run (\<lambda>t. FetchThrows)
          [(3000, SubmitClick), (4000, ModalSubmit ''O(n)'' ''O(n)'' (Fetched GeminiError))]
          codingSession)"
proof -
  let ?tes = "[(0, LoadProblem exampleProblem),
               (1000, SendMessage ''use a map'' (Fetched (GeminiReply (Some ''Tell me more.''))))]"
  let ?tes' = "[(3000, SubmitClick), (4000, ModalSubmit ''O(n)'' ''O(n)'' (Fetched GeminiError))]"
  note th = editor_lock_invariant
    [where env = "\<lambda>t. FetchThrows" and tes = ?tes and ?t0.0 = 0 and s = codingSession and tes' = ?tes']
  have nf: "\<not> unlockFired (\<lambda>t. FetchThrows) ?tes (initialSession 0)"
    by (simp add: eval_simps js_toLowerCase_def lowerChar_def)
  have un: "\<not> isEditorLocked codingSession"
    by (simp add: codingSession_eq)
  from th nf have "isEditorLocked (run (\<lambda>t. FetchThrows) ?tes (initialSession 0))"
    and "sessionState (run (\<lambda>t. FetchThrows) ?tes (initialSession 0)) = Approach"
    by blast+
  moreover from th un have "\<not> isEditorLocked (run (\<lambda>t. FetchThrows) ?tes' codingSession)"
    by blast
  ultimately show ?thesis using un by blast
qed

subsection \<open>Counting hints\<close>

lemma handle_hintsUsed_mono: "hintsUsed s \<le> hintsUsed (handle t e s)"
  by (cases e)
     (auto simp: handleSendMessage_def handleHintRequest_def handleRunCode_def handleSubmitClick_def
        modal_handleSubmit_def handleComplexitySubmit_def typeInEditor_frame handleInitialMessage_def
        initializeEditor_def showToast_def addMessage_def Let_def
        split: fetch_result.splits mentor_json.splits hint_json.splits run_json.splits
          evaluate_json.splits option.splits)

lemma perform_hintsUsed_mono: "hintsUsed s \<le> hintsUsed (perform t e s)"
  by (simp add: perform_def rendered_frame handle_hintsUsed_mono)

lemma step_hintsUsed_mono: "hintsUsed s \<le> hintsUsed (step env te s)"
  using perform_hintsUsed_mono [of "advance env (fst te) s" "fst te" "snd te"]
  by (simp add: step_def Let_def advance_frame)

lemma run_hintsUsed_mono: "hintsUsed s \<le> hintsUsed (run env tes s)"
proof (induction tes arbitrary: s)
  case Nil
  show ?case by simp
next
  case (Cons te tes)
  from step_hintsUsed_mono [of s env te] Cons.IH [of "step env te s"]
  show ?case by simp
qed

text \<open>
  C4, as the page has it. \<open>handleHintRequest\<close> adds 1 to \<open>hintsUsed\<close> inside
  \<open>if (data.success)\<close>: an explicit hint request increases \<open>hintsUsed\<close> by exactly 1
  when the hint route answers \<open>success: true\<close>, and by 0 when the request fails (the
  fetch throws, or the route rejects the request). With a problem loaded the route
  answers \<open>success: true\<close> whether or not the LLM call behind it fails, so there the
  count goes up by 1 for every LLM outcome. An automatic inactivity hint (the
  handler, and every timer the clock lets run) leaves \<open>hintsUsed\<close> unchanged, and no
  step or run of a session decreases it.
\<close>

theorem hintsUsed_counts_answered_hints:
  "hintsUsed (handleHintRequest (Fetched (HintSuccess h)) s) = hintsUsed s + 1 \<and>
   hintsUsed (handleHintRequest (Fetched (HintFailure st e)) s) = hintsUsed s \<and>
   hintsUsed (handleHintRequest FetchThrows s) = hintsUsed s \<and>
   (problem s \<noteq> None \<longrightarrow>
      hintsUsed (perform t (HintRequest (Fetched g)) s) = hintsUsed s + 1) \<and>
   (problem s = None \<longrightarrow>
      hintsUsed (perform t (HintRequest (Fetched g)) s) = hintsUsed s) \<and>
   hintsUsed (handleAutomaticHint d c pr s) = hintsUsed s \<and>
   hintsUsed (advance env t s) = hintsUsed s \<and>
   hintsUsed s \<le> hintsUsed (step env te s) \<and>
   hintsUsed s \<le> hintsUsed (run env tes s)"
proof -
  have "\<exists>h. callGeminiAPI_hint g = Inr h" by (cases g) auto
  then have "problem s \<noteq> None \<Longrightarrow>
      hintsUsed (perform t (HintRequest (Fetched g)) s) = hintsUsed s + 1"
    by (auto simp: perform_def rendered_frame handleHintRequest_def fetch_hint_def hint_POST_def
          showToast_def Let_def)
  moreover have "problem s = None \<Longrightarrow>
      hintsUsed (perform t (HintRequest (Fetched g)) s) = hintsUsed s"
    by (simp add: perform_def rendered_frame handleHintRequest_def fetch_hint_def hint_POST_def
          Let_def)
  moreover have "hintsUsed (handleAutomaticHint d c pr s) = hintsUsed s"
    by (simp add: handleAutomaticHint_def showToast_def
          split: fetch_result.splits automatic_json.splits)
  ultimately show ?thesis
    using step_hintsUsed_mono [of s env te] run_hintsUsed_mono [of s env tes]
    by (simp add: handleHintRequest_def showToast_def Let_def advance_frame)
qed

text \<open>The claim as stated fails where the request itself fails: in the example
  session the Hint button is there, the fetch of \<open>/api/hint\<close> throws, and \<open>hintsUsed\<close>
  is not increased.\<close>

theorem hint_request_counterexample:
  "enabled (HintRequest FetchThrows) codingSession \<and>
   hintsUsed (step (\<lambda>t. FetchThrows) (3000, HintRequest FetchThrows) codingSession)
     \<noteq> hintsUsed codingSession + 1"
  by (simp add: codingSession_eq eval_simps)

theorem hintsUsed_counts_answered_hints_witness:
  "problem codingSession \<noteq> None \<and>
   hintsUsed (perform 9000 (HintRequest (Fetched GeminiError)) codingSession) = 1 \<and>
   hintsUsed (perform 9000 (HintRequest FetchThrows) codingSession) = 0 \<and>
   hintsUsed (advance (\<lambda>t. Fetched (0, GeminiError)) 9000 codingSession) = 0"
proof -
  note th = hintsUsed_counts_answered_hints
    [where s = codingSession and t = 9000 and g = GeminiError
       and env = "\<lambda>t. Fetched (0, GeminiError)"]
  have p: "problem codingSession \<noteq> None" by (simp add: codingSession_eq)
  have h0: "hintsUsed codingSession = 0" by (simp add: codingSession_eq)
  from th p
  have "hintsUsed (perform 9000 (HintRequest (Fetched GeminiError)) codingSession) =
        hintsUsed codingSession + 1"
    by blast
  moreover from th
  have "hintsUsed (handleHintRequest FetchThrows codingSession) = hintsUsed codingSession"
    by blast
  moreover from th
  have "hintsUsed (advance (\<lambda>t. Fetched (0, GeminiError)) 9000 codingSession) =
        hintsUsed codingSession"
    by blast
  ultimately show ?thesis
    using p h0 by (simp add: perform_def rendered_frame fetch_hint_def)
qed

subsection \<open>Failed calls\<close>

text \<open>
  C3, as the page has it. A request of a page operation to its API route fails when
  the fetch throws or the route answers without \<open>success: true\<close>. Then phase and
  editor lock are unchanged; a failed send appends a static fallback reply to the
  chat; a failed run and a failed submit show a static error toast (a failed submit
  changes nothing else, the modal stays open); a hint request shows a static error
  toast when its fetch throws and nothing when the route rejects it; a failed
  automatic hint changes nothing at all. A failure of the LLM call inside a route
  is not such a failure: the wrapper returns a static text, the route answers
  \<open>success: true\<close>, and the page proceeds as on success. So submit moves the phase to
  Evaluation exactly when the evaluation route answers \<open>success: true\<close>, which it
  also does when the LLM call behind it failed; otherwise the phase is unchanged,
  and the editor lock is unchanged in every case.
\<close>

theorem failed_request_leaves_phase_and_lock:
  "(sessionState (handleSendMessage FetchThrows m s) = sessionState s \<and>
    isEditorLocked (handleSendMessage FetchThrows m s) = isEditorLocked s \<and>
    chatMessages (handleSendMessage FetchThrows m s) =
      chatMessages s @ [\<lparr>role = User, content = m\<rparr>,
        \<lparr>role = Assistant, content = ''I'm experiencing technical difficulties. Please try again.''\<rparr>]) \<and>
   (sessionState (handleSendMessage (Fetched (MentorFailure st e)) m s) = sessionState s \<and>
    isEditorLocked (handleSendMessage (Fetched (MentorFailure st e)) m s) = isEditorLocked s \<and>
    chatMessages (handleSendMessage (Fetched (MentorFailure st e)) m s) =
      chatMessages s @ [\<lparr>role = User, content = m\<rparr>,
        \<lparr>role = Assistant, content = ''I'm having trouble processing your message. Please try again.''\<rparr>]) \<and>
   (sessionState (handleHintRequest FetchThrows s) = sessionState s \<and>
    isEditorLocked (handleHintRequest FetchThrows s) = isEditorLocked s \<and>
    toasts (handleHintRequest FetchThrows s) =
      toasts s @ [(''Unable to get hint right now. Try again later.'', ToastError)]) \<and>
   (sessionState (handleHintRequest (Fetched (HintFailure st e)) s) = sessionState s \<and>
    isEditorLocked (handleHintRequest (Fetched (HintFailure st e)) s) = isEditorLocked s \<and>
    toasts (handleHintRequest (Fetched (HintFailure st e)) s) = toasts s \<and>
    chatMessages (handleHintRequest (Fetched (HintFailure st e)) s) = chatMessages s) \<and>
   (sessionState (handleRunCode FetchThrows s) = sessionState s \<and>
    isEditorLocked (handleRunCode FetchThrows s) = isEditorLocked s \<and>
    toasts (handleRunCode FetchThrows s) =
      toasts s @ [(''Failed to run code. Please try again.'', ToastError)]) \<and>
   (sessionState (handleRunCode (Fetched (RunFailure st e)) s) = sessionState s \<and>
    isEditorLocked (handleRunCode (Fetched (RunFailure st e)) s) = isEditorLocked s \<and>
    toasts (handleRunCode (Fetched (RunFailure st e)) s) =
      toasts s @ [(''Error running code. Please try again.'', ToastError)]) \<and>
   (handleComplexitySubmit FetchThrows s =
      s\<lparr>toasts := toasts s @ [(''Failed to evaluate solution. Please try again.'', ToastError)]\<rparr> \<and>
    handleComplexitySubmit (Fetched (EvaluateFailure st e)) s =
      s\<lparr>toasts := toasts s @ [(''Failed to evaluate solution. Please try again.'', ToastError)]\<rparr>) \<and>
   (handleAutomaticHint FetchThrows c pr s = s \<and>
    handleAutomaticHint (Fetched (AutomaticHint False h)) c pr s = s) \<and>
   isEditorLocked (handleComplexitySubmit d s) = isEditorLocked s \<and>
   (sessionState (handleComplexitySubmit d s) = Evaluation \<longleftrightarrow>
      sessionState s = Evaluation \<or> (\<exists>evaluation. d = Fetched (EvaluateSuccess evaluation))) \<and>
   (sessionState (handleComplexitySubmit d s) \<noteq> Evaluation \<longrightarrow>
      sessionState (handleComplexitySubmit d s) = sessionState s) \<and>
   (code s \<noteq> [] \<and> problem s \<noteq> None \<and> tc \<noteq> [] \<and> sc \<noteq> [] \<longrightarrow>
      fetch_evaluate (Fetched GeminiError) tc sc s =
        Fetched (EvaluateSuccess
          ''Great job completing the solution! Keep practicing to improve your skills.''))"
proof -
  have send: "sessionState (handleSendMessage FetchThrows m s) = sessionState s \<and>
    isEditorLocked (handleSendMessage FetchThrows m s) = isEditorLocked s \<and>
    chatMessages (handleSendMessage FetchThrows m s) =
      chatMessages s @ [\<lparr>role = User, content = m\<rparr>,
        \<lparr>role = Assistant, content = ''I'm experiencing technical difficulties. Please try again.''\<rparr>]"
    "sessionState (handleSendMessage (Fetched (MentorFailure st e)) m s) = sessionState s \<and>
    isEditorLocked (handleSendMessage (Fetched (MentorFailure st e)) m s) = isEditorLocked s \<and>
    chatMessages (handleSendMessage (Fetched (MentorFailure st e)) m s) =
      chatMessages s @ [\<lparr>role = User, content = m\<rparr>,
        \<lparr>role = Assistant, content = ''I'm having trouble processing your message. Please try again.''\<rparr>]"
    by (simp_all add: handleSendMessage_def addMessage_def Let_def)
  have hint: "sessionState (handleHintRequest FetchThrows s) = sessionState s \<and>
    isEditorLocked (handleHintRequest FetchThrows s) = isEditorLocked s \<and>
    toasts (handleHintRequest FetchThrows s) =
      toasts s @ [(''Unable to get hint right now. Try again later.'', ToastError)]"
    "sessionState (handleHintRequest (Fetched (HintFailure st e)) s) = sessionState s \<and>
    isEditorLocked (handleHintRequest (Fetched (HintFailure st e)) s) = isEditorLocked s \<and>
    toasts (handleHintRequest (Fetched (HintFailure st e)) s) = toasts s \<and>
    chatMessages (handleHintRequest (Fetched (HintFailure st e)) s) = chatMessages s"
    by (simp_all add: handleHintRequest_def showToast_def Let_def)
  have runc: "sessionState (handleRunCode FetchThrows s) = sessionState s \<and>
    isEditorLocked (handleRunCode FetchThrows s) = isEditorLocked s \<and>
    toasts (handleRunCode FetchThrows s) =
      toasts s @ [(''Failed to run code. Please try again.'', ToastError)]"
    "sessionState (handleRunCode (Fetched (RunFailure st e)) s) = sessionState s \<and>
    isEditorLocked (handleRunCode (Fetched (RunFailure st e)) s) = isEditorLocked s \<and>
    toasts (handleRunCode (Fetched (RunFailure st e)) s) =
      toasts s @ [(''Error running code. Please try again.'', ToastError)]"
    by (simp_all add: handleRunCode_def showToast_def Let_def)
  have subm: "handleComplexitySubmit FetchThrows s =
      s\<lparr>toasts := toasts s @ [(''Failed to evaluate solution. Please try again.'', ToastError)]\<rparr> \<and>
    handleComplexitySubmit (Fetched (EvaluateFailure st e)) s =
      s\<lparr>toasts := toasts s @ [(''Failed to evaluate solution. Please try again.'', ToastError)]\<rparr>"
    by (simp add: handleComplexitySubmit_def showToast_def)
  have auto_hint: "handleAutomaticHint FetchThrows c pr s = s \<and>
    handleAutomaticHint (Fetched (AutomaticHint False h)) c pr s = s"
    by (simp add: handleAutomaticHint_def)
  have lock: "isEditorLocked (handleComplexitySubmit d s) = isEditorLocked s"
    by (simp add: handleComplexitySubmit_def showToast_def addMessage_def
          split: fetch_result.splits evaluate_json.splits)
  have only: "sessionState (handleComplexitySubmit d s) = Evaluation \<longleftrightarrow>
      sessionState s = Evaluation \<or> (\<exists>evaluation. d = Fetched (EvaluateSuccess evaluation))"
    by (auto simp: handleComplexitySubmit_def showToast_def addMessage_def
          split: fetch_result.splits evaluate_json.splits)
  have keep: "sessionState (handleComplexitySubmit d s) \<noteq> Evaluation \<longrightarrow>
      sessionState (handleComplexitySubmit d s) = sessionState s"
    by (auto simp: handleComplexitySubmit_def showToast_def addMessage_def
          split: fetch_result.splits evaluate_json.splits)
  have absorbed: "code s \<noteq> [] \<and> problem s \<noteq> None \<and> tc \<noteq> [] \<and> sc \<noteq> [] \<longrightarrow>
      fetch_evaluate (Fetched GeminiError) tc sc s =
        Fetched (EvaluateSuccess
          ''Great job completing the solution! Keep practicing to improve your skills.'')"
    by (simp add: fetch_evaluate_def evaluate_POST_def)
  from send hint runc subm auto_hint lock only keep absorbed show ?thesis
    by blast
qed

text \<open>The claim as stated fails in two places. In the example session the user
  opens the modal and submits while the LLM call of the evaluation route fails: the
  phase moves from Coding to Evaluation. And a failed automatic hint yields no
  message.\<close>

theorem failed_external_call_counterexample:
  "sessionState (step (\<lambda>t. FetchThrows) (3000, SubmitClick) codingSession) = Coding \<and>
   sessionState
     (run (\<lambda>t. FetchThrows)
        [(3000, SubmitClick), (4000, ModalSubmit ''O(n)'' ''O(1)'' (Fetched GeminiError))]
        codingSession) = Evaluation \<and>
   handleAutomaticHint FetchThrows (code codingSession) (problem codingSession) codingSession =
     codingSession"
  by (simp add: codingSession_eq eval_simps)

theorem failed_request_leaves_phase_and_lock_witness:
  "code codingSession \<noteq> [] \<and> problem codingSession \<noteq> None \<and>
   sessionState (handleComplexitySubmit FetchThrows codingSession) = Coding \<and>
   \<not> isEditorLocked (handleComplexitySubmit FetchThrows codingSession) \<and>
   toasts (handleComplexitySubmit FetchThrows codingSession) =
     [(''Code editor unlocked! You can start coding now.'', ToastSuccess),
      (''Failed to evaluate solution. Please try again.'', ToastError)] \<and>
   fetch_evaluate (Fetched GeminiError) ''O(n)'' ''O(1)'' codingSession =
     Fetched (EvaluateSuccess
       ''Great job completing the solution! Keep practicing to improve your skills.'')"
proof -
  note th = failed_request_leaves_phase_and_lock
    [where s = codingSession and d = FetchThrows and tc = "''O(n)''" and sc = "''O(1)''"]
  have pre: "code codingSession \<noteq> [] \<and> problem codingSession \<noteq> None \<and>
      ''O(n)'' \<noteq> [] \<and> ''O(1)'' \<noteq> []"
    by (simp add: codingSession_eq)
  from th pre
  have "fetch_evaluate (Fetched GeminiError) ''O(n)'' ''O(1)'' codingSession =
      Fetched (EvaluateSuccess
        ''Great job completing the solution! Keep practicing to improve your skills.'')"
    by blast
  moreover from th
  have "handleComplexitySubmit FetchThrows codingSession =
      codingSession\<lparr>toasts := toasts codingSession @
        [(''Failed to evaluate solution. Please try again.'', ToastError)]\<rparr>"
    by blast
  ultimately show ?thesis
    using pre by (simp add: codingSession_eq)
qed

text \<open>\<open>AgentOrchestrator.evaluateSubmission\<close> and \<open>provideHint\<close>, which the page does
  not call, act before or regardless of the outcome of their call: the first sets
  the phase to Evaluation also when the fetch throws or the route rejects the
  request, the second counts the hint in every case.\<close>

lemma orchestrator_evaluateSubmission_always_transitions:
  "sessionState (snd (orchestrator_evaluateSubmission d s)) = Evaluation"
  by (simp add: orchestrator_evaluateSubmission_def)

lemma orchestrator_provideHint_always_counts:
  "hintsUsed (snd (orchestrator_provideHint d s)) = hintsUsed s + 1"
  by (simp add: orchestrator_provideHint_def)

subsection \<open>The inactivity timer and the editor\<close>

text \<open>The timeout that \<open>handleCodeChange\<close> arms, in every session: at most one is
  pending, due 3000 ms after the last activity, armed in the Coding phase with the
  editor unlocked on code longer than 10 (\<open>timerInvariant\<close>); and when the clock
  reaches \<open>t\<close> it fires if it is due by then, once, and is gone afterwards.\<close>

lemma advance_nil: "pendingTimers s = [] \<Longrightarrow> advance env t s = s"
  by (simp add: advance_def)

lemma advance_single:
  "pendingTimers s = [u] \<Longrightarrow>
   advance env t s = (if due u \<le> t then fireTimer env (due u) u s else s)"
  by (simp add: advance_def)

lemma handleAutomaticHint_frame:
  "pendingTimers (handleAutomaticHint d c pr s) = pendingTimers s"
  "lastActivity (handleAutomaticHint d c pr s) = lastActivity s"
  "inactivityTimer (handleAutomaticHint d c pr s) = inactivityTimer s"
  "autoHintCalls (handleAutomaticHint d c pr s) = autoHintCalls s"
  "isEditorLocked (handleAutomaticHint d c pr s) = isEditorLocked s"
  "sessionState (handleAutomaticHint d c pr s) = sessionState s"
  by (simp_all add: handleAutomaticHint_def showToast_def
        split: fetch_result.splits automatic_json.splits)

lemma fireTimer_timers:
  "pendingTimers (fireTimer env now u s) = filter (\<lambda>v. timer_id v \<noteq> timer_id u) (pendingTimers s)"
  "lastActivity (fireTimer env now u s) = lastActivity s"
  "inactivityTimer (fireTimer env now u s) = inactivityTimer s"
  "autoHintCalls (fireTimer env now u s) =
     (if now - lastActivity s \<ge> 3000 then autoHintCalls s @ [(now, t_code u)] else autoHintCalls s)"
  by (simp_all add: fireTimer_def Let_def handleAutomaticHint_frame)

lemma advance_timerInvariant:
  assumes "timerInvariant s"
  shows "timerInvariant (advance env t s) \<and>
         pendingTimers (advance env t s) = filter (\<lambda>u. t < due u) (pendingTimers s) \<and>
         lastActivity (advance env t s) = lastActivity s \<and>
         autoHintCalls (advance env t s) =
           autoHintCalls s @
             map (\<lambda>u. (lastActivity s + 3000, t_code u)) (filter (\<lambda>u. due u \<le> t) (pendingTimers s))"
proof (cases "pendingTimers s")
  case Nil
  with assms show ?thesis by (simp add: advance_nil)
next
  case (Cons u us)
  with assms have us: "us = []" by (simp add: timerInvariant_def)
  with Cons have p: "pendingTimers s = [u]" by simp
  from assms p have d: "due u = lastActivity s + 3000" by (simp add: timerInvariant_def)
  show ?thesis
  proof (cases "due u \<le> t")
    case True
    with p d assms show ?thesis
      by (simp add: advance_single fireTimer_timers timerInvariant_def fireTimer_frame)
  next
    case False
    with p assms show ?thesis
      by (simp add: advance_single)
  qed
qed

text \<open>\<open>handleCodeChange\<close> cancels the pending timeout, and arms a new one, due 3000 ms
  later, exactly when its render \<open>r\<close> is in the Coding phase with the editor unlocked
  and the trimmed code is longer than 10.\<close>

lemma timerInvariant_cleared:
  assumes "timerInvariant s"
  shows "(case inactivityTimer s of None \<Rightarrow> pendingTimers s
          | Some i \<Rightarrow> filter (\<lambda>u. timer_id u \<noteq> i) (pendingTimers s)) = []"
proof (cases "inactivityTimer s")
  case None
  with assms show ?thesis
    by (cases "pendingTimers s") (auto simp: timerInvariant_def)
next
  case (Some i)
  with assms show ?thesis
    by (auto simp: timerInvariant_def filter_empty_conv)
qed

lemma handleCodeChange_pending:
  assumes "timerInvariant s"
  shows "pendingTimers (handleCodeChange r now c s) =
     (if \<not> isEditorLocked r \<and> sessionState r = Coding \<and> length (js_trim c) > 10
      then [\<lparr>timer_id = nextTimerId s, due = now + 3000, t_code = c, t_problem = problem r,
              t_skillLevel = skillLevel r, t_sessionState = sessionState r\<rparr>]
      else [])"
  using timerInvariant_cleared [OF assms]
  by (auto simp: handleCodeChange_def clearTimeout_def setTimeout_def Let_def split: option.splits)

lemma handleCodeChange_inactivityTimer:
  "inactivityTimer (handleCodeChange r now c s) =
     (if \<not> isEditorLocked r \<and> sessionState r = Coding \<and> length (js_trim c) > 10
      then Some (nextTimerId s) else inactivityTimer s)"
  by (simp add: handleCodeChange_def clearTimeout_def setTimeout_def Let_def split: option.splits)

lemma handleCodeChange_timerInvariant:
  assumes "timerInvariant s" and "\<not> isEditorLocked r \<longrightarrow> \<not> isEditorLocked s"
  shows "timerInvariant (handleCodeChange r now c s)"
  using assms(2)
  by (simp add: timerInvariant_def handleCodeChange_pending [OF assms(1)]
        handleCodeChange_inactivityTimer handleCodeChange_frame)

text \<open>The handler of the first render never arms a timeout: it only cancels.\<close>

lemma firstRender_locked: "isEditorLocked firstRender" "sessionState firstRender = Approach"
  by (simp_all add: firstRender_def initialSession_def)

lemma handleCodeChange_first_render:
  "pendingTimers (handleCodeChange firstRender now c s) =
     (case inactivityTimer s of None \<Rightarrow> pendingTimers s
      | Some i \<Rightarrow> filter (\<lambda>u. timer_id u \<noteq> i) (pendingTimers s))"
  by (simp add: handleCodeChange_def firstRender_locked clearTimeout_def Let_def split: option.splits)

lemma setValue_timerInvariant: "timerInvariant s \<Longrightarrow> timerInvariant (setValue now v s)"
proof -
  have m: "timerInvariant (s\<lparr>monaco := x\<rparr>) = timerInvariant s" for x
    by (simp add: timerInvariant_def)
  show "timerInvariant s \<Longrightarrow> timerInvariant (setValue now v s)"
    by (simp add: setValue_def contentListener_def m handleCodeChange_timerInvariant firstRender_locked
          split: option.splits)
qed

lemma typeInEditor_timerInvariant: "timerInvariant s \<Longrightarrow> timerInvariant (typeInEditor now v s)"
  by (simp add: typeInEditor_def setValue_timerInvariant split: option.splits)

lemma codeEditorEffects_timerInvariant:
  assumes "timerInvariant s"
  shows "timerInvariant (codeEditorEffects now prev s)"
proof -
  have m: "timerInvariant (s'\<lparr>monaco := x\<rparr>) = timerInvariant s'" for s' x
    by (simp add: timerInvariant_def)
  define s1 where "s1 = (case monaco s of None \<Rightarrow> s | Some ed \<Rightarrow>
      if code s \<noteq> code prev \<and> code s \<noteq> ed_value ed then setValue now (code s) s else s)"
  have 1: "timerInvariant s1" and l1: "isEditorLocked s1 = isEditorLocked s"
    using assms by (simp_all add: s1_def setValue_timerInvariant setValue_frame split: option.splits)
  have 2: "timerInvariant (handleCodeChange s now c s1)" for c
    by (rule handleCodeChange_timerInvariant [OF 1]) (simp add: l1)
  show ?thesis
    using 1 2 by (simp add: codeEditorEffects_def Let_def m s1_def [symmetric])
qed

lemma rendered_timerInvariant: "timerInvariant s \<Longrightarrow> timerInvariant (rendered now prev s)"
  by (simp add: rendered_def Let_def codeEditorEffects_timerInvariant)

lemma handle_timerInvariant:
  assumes "timerInvariant s"
  shows "timerInvariant (handle t e s)"
proof (cases e)
  case (CodeChange c)
  with assms show ?thesis by (simp add: typeInEditor_timerInvariant)
next
  case (SendMessage m net)
  with assms show ?thesis
    by (auto simp: timerInvariant_def handleSendMessage_def addMessage_def showToast_def Let_def
          split: fetch_result.splits mentor_json.splits)
next
  case (ModalSubmit tc sc net)
  with assms show ?thesis
    by (auto simp: timerInvariant_def modal_handleSubmit_def handleComplexitySubmit_def
          showToast_def addMessage_def split: fetch_result.splits evaluate_json.splits)
next
  case (HintRequest net)
  with assms show ?thesis
    by (auto simp: timerInvariant_def handleHintRequest_def showToast_def Let_def
          split: fetch_result.splits hint_json.splits)
next
  case (RunCode net)
  with assms show ?thesis
    by (auto simp: timerInvariant_def handleRunCode_def showToast_def Let_def
          split: fetch_result.splits run_json.splits)
next
  case (InitialMessage p d)
  with assms show ?thesis
    by (auto simp: timerInvariant_def handleInitialMessage_def
          split: fetch_result.splits option.splits)
qed (use assms in \<open>auto simp: timerInvariant_def handleSubmitClick_def initializeEditor_def\<close>)

lemma perform_timerInvariant: "timerInvariant s \<Longrightarrow> timerInvariant (perform t e s)"
  by (simp add: perform_def rendered_timerInvariant handle_timerInvariant)

lemma step_timerInvariant: "timerInvariant s \<Longrightarrow> timerInvariant (step env te s)"
  using advance_timerInvariant [of s env "fst te"]
    perform_timerInvariant [of "advance env (fst te) s" "fst te" "snd te"]
  by (simp add: step_def Let_def)

lemma run_timerInvariant: "timerInvariant s \<Longrightarrow> timerInvariant (run env tes s)"
  by (induction tes arbitrary: s) (simp_all add: step_timerInvariant)

lemma session_timerInvariant: "timerInvariant (run env tes (initialSession t0))"
  by (rule run_timerInvariant) (simp add: timerInvariant_def initialSession_def)

text \<open>Without a change of language nothing arms a timeout: the editor calls the
  handler of the first render, and the other operations do not touch the timer.\<close>

lemma setValue_quiet:
  "pendingTimers s = [] \<Longrightarrow> pendingTimers (setValue now v s) = []"
  by (simp add: setValue_def contentListener_def handleCodeChange_first_render
        split: option.splits)

lemma typeInEditor_quiet:
  "pendingTimers s = [] \<Longrightarrow> pendingTimers (typeInEditor now v s) = []"
  by (simp add: typeInEditor_def setValue_quiet split: option.splits)

lemma codeEditorEffects_quiet:
  assumes "pendingTimers s = []" and "language s = language prev"
  shows "pendingTimers (codeEditorEffects now prev s) = []"
  using assms by (simp add: codeEditorEffects_def Let_def setValue_quiet split: option.splits)

lemma rendered_quiet:
  assumes "pendingTimers s = []" and "language s = language prev"
  shows "pendingTimers (rendered now prev s) = []"
  using assms by (simp add: rendered_def Let_def codeEditorEffects_quiet codeEditorEffects_frame)

lemma handle_quiet:
  assumes "pendingTimers s = []" and "\<forall>l. e \<noteq> SetLanguage l"
  shows "pendingTimers (handle t e s) = [] \<and> language (handle t e s) = language s \<and>
         autoHintCalls (handle t e s) = autoHintCalls s"
  using assms
  by (cases e)
     (auto simp: handleSendMessage_def handleHintRequest_def handleRunCode_def handleSubmitClick_def
        modal_handleSubmit_def handleComplexitySubmit_def typeInEditor_frame typeInEditor_quiet
        handleInitialMessage_def initializeEditor_def showToast_def addMessage_def Let_def
        split: fetch_result.splits mentor_json.splits hint_json.splits run_json.splits
          evaluate_json.splits option.splits)

lemma step_quiet:
  assumes "pendingTimers s = []" and "\<forall>l. snd te \<noteq> SetLanguage l"
  shows "pendingTimers (step env te s) = [] \<and> autoHintCalls (step env te s) = autoHintCalls s"
  using assms handle_quiet [OF assms(1), of "snd te" "fst te"]
  by (simp add: step_def Let_def advance_nil perform_def rendered_quiet rendered_frame)

lemma run_quiet:
  assumes "pendingTimers s = []" and "\<forall>te \<in> set tes. \<forall>l. snd te \<noteq> SetLanguage l"
  shows "pendingTimers (run env tes s) = [] \<and> autoHintCalls (run env tes s) = autoHintCalls s"
  using assms
proof (induction tes arbitrary: s)
  case Nil
  then show ?case by simp
next
  case (Cons te tes)
  from Cons.prems have q: "pendingTimers (step env te s) = []"
    "autoHintCalls (step env te s) = autoHintCalls s"
    using step_quiet [of s te env] by simp_all
  from Cons.IH [OF q(1)] Cons.prems q(2) show ?case by simp
qed

text \<open>What a typed edit does, with no timeout pending: the editor and the code take
  the text and the time of the last activity is set; nothing is armed.\<close>

lemma typeInEditor_typed:
  assumes "monaco s = Some ed" and "\<not> ed_readOnly ed" and "c \<noteq> ed_value ed"
    and "pendingTimers s = []"
  shows "typeInEditor t c s =
         s\<lparr>code := c, lastActivity := t, monaco := Some (ed\<lparr>ed_value := c\<rparr>)\<rparr>"
  using assms
  by (cases "inactivityTimer s")
     (simp_all add: typeInEditor_def setValue_def contentListener_def handleCodeChange_def
        firstRender_locked clearTimeout_def Let_def)

lemma step_typed:
  assumes "monaco s = Some ed" and "\<not> ed_readOnly ed" and "c \<noteq> ed_value ed"
    and "pendingTimers s = []"
  shows "step env (t, CodeChange c) s =
         s\<lparr>code := c, lastActivity := t, monaco := Some (ed\<lparr>ed_value := c\<rparr>)\<rparr>"
proof -
  let ?s' = "s\<lparr>code := c, lastActivity := t, monaco := Some (ed\<lparr>ed_value := c\<rparr>)\<rparr>"
  have 1: "codeEditorEffects t s ?s' = ?s'"
    by (simp add: codeEditorEffects_def)
  have "codeEditorEffects t ?s' ?s' = ?s'"
    by (rule codeEditorEffects_same) simp_all
  with 1 have "rendered t s ?s' = ?s'"
    by (simp add: rendered_def)
  then show ?thesis
    using assms by (simp add: step_def advance_nil perform_def typeInEditor_typed [OF assms])
qed

lemma step_idle: "pendingTimers s = [] \<Longrightarrow> step env (t, Idle) s = s"
  by (simp add: step_def advance_nil perform_def rendered_same)

text \<open>
  A change of language does call the handler of the current render, which arms the
  timeout when the session is in the Coding phase; but the new template is then
  written to the editor, whose listener cancels it again (unless the code or the
  editor holds that template already).
\<close>

lemma language_change_cancelled:
  assumes "timerInvariant s" and "monaco s = Some ed" and "l \<noteq> language s"
    and "getDefaultCode l \<noteq> code s" and "getDefaultCode l \<noteq> ed_value ed"
  shows "pendingTimers (perform now (SetLanguage l) s) = [] \<and>
         code (perform now (SetLanguage l) s) = getDefaultCode l"
proof -
  let ?s' = "s\<lparr>language := l\<rparr>"
  let ?d = "getDefaultCode l"
  define s1 where "s1 = handleCodeChange ?s' now ?d ?s'"
  let ?s1' = "s1\<lparr>monaco := Some (ed\<lparr>ed_value := ?d\<rparr>)\<rparr>"
  have r1: "codeEditorEffects now s ?s' = s1"
    using assms(2,3) by (simp add: codeEditorEffects_def Let_def s1_def handleCodeChange_frame)
  from assms(1) have "timerInvariant ?s'"
    by (simp add: timerInvariant_def)
  then have "timerInvariant s1"
    unfolding s1_def by (rule handleCodeChange_timerInvariant) simp
  then have inv: "timerInvariant ?s1'"
    by (simp add: timerInvariant_def)
  have f1: "monaco s1 = Some ed" "code s1 = ?d" "language s1 = l"
    "isEditorLocked s1 = isEditorLocked s"
    using assms(2) by (simp_all add: s1_def handleCodeChange_frame)
  have sv: "setValue now ?d s1 = handleCodeChange firstRender now ?d ?s1'"
    by (simp add: setValue_def contentListener_def f1)
  have r2: "codeEditorEffects now ?s' s1 = setValue now ?d s1"
    using assms(4,5) f1 by (simp add: codeEditorEffects_def Let_def setValue_frame)
  have "pendingTimers (setValue now ?d s1) = []"
    using timerInvariant_cleared [OF inv] by (simp add: sv handleCodeChange_first_render)
  moreover have "code (setValue now ?d s1) = ?d"
    by (simp add: sv handleCodeChange_frame)
  ultimately show ?thesis
    by (simp add: perform_def rendered_def r1 r2)
qed

lemma run_append: "run env (a @ b) s = run env b (run env a s)"
  by (induction a arbitrary: s) simp_all

text \<open>
  C5. The claim has every code edit cancel the pending timeout and arm a new one,
  so that edits at 0, 1 and 2 seconds followed by silence give one hint at about 5
  seconds. \<open>handleCodeChange\<close> is written that way (\<open>handleCodeChange_pending\<close>). But
  the editor reports every edit to the \<open>handleCodeChange\<close> of the first render, for
  which the editor is locked and the phase is Approach: an edit cancels the pending
  timeout and arms none. So in every session in which the language selector is not
  used, whatever the user types and however long the silence after it, no timeout
  is ever pending and the timer never calls \<open>handleAutomaticHint\<close>.
\<close>

theorem typed_edits_arm_no_timer:
  assumes "\<forall>te \<in> set tes. \<forall>l. snd te \<noteq> SetLanguage l"
  shows "pendingTimers (run env tes (initialSession t0)) = [] \<and>
         autoHintCalls (run env tes (initialSession t0)) = []"
proof -
  have "pendingTimers (initialSession t0) = []" "autoHintCalls (initialSession t0) = []"
    by (simp_all add: initialSession_def)
  with run_quiet [of "initialSession t0" tes env] assms show ?thesis
    by simp
qed

text \<open>The scenario of the specification, in the example session (a problem loaded,
  the editor unlocked, a first line typed): edits at 10, 11 and 12 seconds, then
  silence until 60 seconds. The edits are taken (the code is the last one, 26
  characters long), and the timer makes no call.\<close>

theorem typed_edits_arm_no_timer_witness:
  "sessionState (run (\<lambda>t. FetchThrows) typedEdits (initialSession 0)) = Coding \<and>
   \<not> isEditorLocked (run (\<lambda>t. FetchThrows) typedEdits (initialSession 0)) \<and>
   problem (run (\<lambda>t. FetchThrows) typedEdits (initialSession 0)) = Some exampleProblem \<and>
   code (run (\<lambda>t. FetchThrows) typedEdits (initialSession 0)) = ''function f(a) { return a }'' \<and>
   length (js_trim ''function f(a) { return a }'') = 26 \<and>
   lastActivity (run (\<lambda>t. FetchThrows) typedEdits (initialSession 0)) = 12000 \<and>
   pendingTimers (run (\<lambda>t. FetchThrows) typedEdits (initialSession 0)) = [] \<and>
   autoHintCalls (run (\<lambda>t. FetchThrows) typedEdits (initialSession 0)) = []"
proof -
  let ?env = "\<lambda>t::nat. (FetchThrows :: (nat \<times> gemini_result) fetch_result)"
  have no_language: "\<forall>te \<in> set typedEdits. \<forall>l. snd te \<noteq> SetLanguage l"
    by (simp add: typedEdits_def)
  have "run ?env typedEdits (initialSession 0) =
      run ?env [(10000, CodeChange ''function f(a) {''),
                (11000, CodeChange ''function f(a) { ret''),
                (12000, CodeChange ''function f(a) { return a }''),
                (60000, Idle)] codingSession"
    by (simp add: typedEdits_def codingSession_def)
  also have "\<dots> = codingSession\<lparr>code := ''function f(a) { return a }'', lastActivity := 12000,
      monaco := Some \<lparr>ed_value = ''function f(a) { return a }'', ed_readOnly = False\<rparr>\<rparr>"
    by (simp add: codingSession_eq step_typed step_idle)
  finally have taken: "sessionState (run ?env typedEdits (initialSession 0)) = Coding"
    "\<not> isEditorLocked (run ?env typedEdits (initialSession 0))"
    "problem (run ?env typedEdits (initialSession 0)) = Some exampleProblem"
    "code (run ?env typedEdits (initialSession 0)) = ''function f(a) { return a }''"
    "lastActivity (run ?env typedEdits (initialSession 0)) = 12000"
    by (simp_all add: codingSession_eq)
  have len: "length (js_trim ''function f(a) { return a }'') = 26"
    by (simp add: js_trim_def isWhiteSpace_def)
  from typed_edits_arm_no_timer [OF no_language, of ?env 0] taken len show ?thesis
    by simp
qed

subsection \<open>The hint heuristic by code length\<close>

text \<open>What \<open>getContextualHints\<close> returns, by the trimmed length \<open>n\<close> of the code, for a
  problem whose title does not contain "two sum": the tiers are \<open>n < 20\<close>,
  \<open>20 \<le> n < 50\<close>, \<open>50 < n < 200\<close> and \<open>200 < n\<close>; at exactly 50 and exactly 200 no tier
  applies and only the skill-level hint is left.\<close>

lemma getContextualHints_by_length:
  assumes "\<not> js_includes (js_toLowerCase (title p)) ''two sum''"
  shows "getContextualHints (analyzeCodeProgress c) p lvl =
     (let n = length (js_trim c); a = analyzeCodeProgress c in
      if n < 20 then Inr []
      else if n < 50 then
        Inr ([''Start by understanding the input and expected output format'',
              ''Think about what data structure would be most helpful here'',
              ''Consider writing the function signature first''] @ skillHints lvl)
      else if n = 50 then Inr (skillHints lvl)
      else if n < 200 then
        Inr ((if \<not> hasLoop a \<and> js_includes (js_toLowerCase (description p)) ''array''
              then [''You might need to iterate through the array''] else []) @
             (if \<not> hasConditional a then [''Consider what conditions you need to check''] else []) @
             (if \<not> hasReturn a then [''Don't forget to return the result''] else []) @
             skillHints lvl)
      else if n = 200 then Inr (skillHints lvl)
      else
        Inr ([''Test your logic with the given examples'',
              ''Consider edge cases like empty inputs'',
              ''Think about the time complexity of your approach''] @ skillHints lvl))"
  using assms
  by (simp add: getContextualHints_def stageHints_def analyzeCodeProgress_def Let_def)

text \<open>With "two sum" in the title the function throws for every code of trimmed
  length 20 or more.\<close>

lemma getContextualHints_two_sum:
  assumes "js_includes (js_toLowerCase (title p)) ''two sum''" and "20 \<le> length (js_trim c)"
  shows "getContextualHints (analyzeCodeProgress c) p lvl = Inl ReferenceError"
  using assms by (simp add: getContextualHints_def analyzeCodeProgress_def Let_def)

text \<open>
  C6. The claim gives the tier \<open>50 \<le> length < 200\<close> the structural suggestions. The
  code at a trimmed length of exactly 50: the problem description mentions an
  array, the code has no loop, no conditional and no return, and yet the candidate
  list is empty for an intermediate user. One character more, and the three
  suggestions are there.
\<close>

theorem contextual_hints_at_length_50:
  "length (js_trim ''function pairSum(nums, target) {\<newline>  let seen = {}\<newline>}'') = 50 \<and>
   js_includes (js_toLowerCase (description exampleProblem)) ''array'' \<and>
   \<not> hasLoop (analyzeCodeProgress ''function pairSum(nums, target) {\<newline>  let seen = {}\<newline>}'') \<and>
   \<not> hasConditional (analyzeCodeProgress ''function pairSum(nums, target) {\<newline>  let seen = {}\<newline>}'') \<and>
   \<not> hasReturn (analyzeCodeProgress ''function pairSum(nums, target) {\<newline>  let seen = {}\<newline>}'') \<and>
   getContextualHints
     (analyzeCodeProgress ''function pairSum(nums, target) {\<newline>  let seen = {}\<newline>}'')
     exampleProblem Intermediate = Inr [] \<and>
   getContextualHints
     (analyzeCodeProgress ''function pairSum(nums, target) {\<newline>  let seen = {};\<newline>}'')
     exampleProblem Intermediate =
     Inr [''You might need to iterate through the array'',
          ''Consider what conditions you need to check'',
          ''Don't forget to return the result'']"
  by code_simp

subsection \<open>The paste parser on a text with two examples\<close>

lemma matchExamples_skip:
  "headerFree pre rest \<Longrightarrow> matchExamples (pre @ rest) = matchExamples rest"
  by (induction pre) simp_all

lemma lazyBody_stop:
  "headerFree b rest \<Longrightarrow> rest = [] \<or> exampleHeader rest \<noteq> None \<Longrightarrow>
   lazyBody (b @ rest) = (b, rest)"
proof (induction b)
  case Nil
  then show ?case by (cases rest) auto
next
  case (Cons c b)
  then show ?case by simp
qed

lemma colon_not_digit: "\<not> isDigit (CHR '':'')"
  by (simp add: isDigit_def)

lemma digits_then_colon:
  assumes "list_all isDigit ds"
  shows "takeWhile isDigit (ds @ CHR '':'' # r) = ds"
    and "dropWhile isDigit (ds @ CHR '':'' # r) = CHR '':'' # r"
  using assms
  by (simp_all add: takeWhile_append2 dropWhile_append2 list_all_iff colon_not_digit)

lemma exampleHeader_block:
  assumes "ds \<noteq> []" and "list_all isDigit ds"
  shows "exampleHeader (''Example '' @ ds @ '':'' @ r) = Some (8 + length ds + 1)"
  using assms digits_then_colon [OF assms(2), of r]
  by (simp add: exampleHeader_def startsWith_def)

lemma matchExamples_block:
  assumes "ds \<noteq> []" and "list_all isDigit ds" and "headerFree b rest"
    and "rest = [] \<or> exampleHeader rest \<noteq> None"
  shows "matchExamples (exampleBlock ds b @ rest) = exampleBlock ds b # matchExamples rest"
proof -
  define hdr where "hdr = ''Example '' @ ds @ '':''"
  let ?t = "hdr @ b @ rest"
  have l: "length hdr = 8 + length ds + 1"
    by (simp add: hdr_def)
  have h: "exampleHeader ?t = Some (length hdr)"
    using exampleHeader_block [OF assms(1,2), of "b @ rest"] by (simp add: hdr_def)
  obtain cs where cs: "?t = CHR ''E'' # cs"
    by (simp add: hdr_def)
  have "matchExamples (CHR ''E'' # cs) =
      (take (length hdr) (CHR ''E'' # cs) @ fst (lazyBody (drop (length hdr) (CHR ''E'' # cs)))) #
      matchExamples (snd (lazyBody (drop (length hdr) (CHR ''E'' # cs))))"
    using h by (simp add: cs)
  then have "matchExamples ?t =
      (take (length hdr) ?t @ fst (lazyBody (drop (length hdr) ?t))) #
      matchExamples (snd (lazyBody (drop (length hdr) ?t)))"
    by (simp only: cs)
  then have "matchExamples ?t = (hdr @ b) # matchExamples rest"
    using lazyBody_stop [OF assms(3,4)] by simp
  then show ?thesis
    by (simp add: hdr_def exampleBlock_def)
qed

lemma matchExamples_two:
  assumes "twoExampleText pre n1 b1 n2 b2"
  shows "matchExamples (pre @ exampleBlock n1 b1 @ exampleBlock n2 b2) =
         [exampleBlock n1 b1, exampleBlock n2 b2]"
proof -
  from assms have d1: "n1 \<noteq> []" "list_all isDigit n1"
    and d2: "n2 \<noteq> []" "list_all isDigit n2"
    and hf: "headerFree pre (exampleBlock n1 b1 @ exampleBlock n2 b2)"
      "headerFree b1 (exampleBlock n2 b2)" "headerFree b2 []"
    by (simp_all add: twoExampleText_def)
  have h2: "exampleHeader (exampleBlock n2 b2) \<noteq> None"
    using exampleHeader_block [OF d2, of b2] by (simp add: exampleBlock_def)
  have m2: "matchExamples (exampleBlock n2 b2) = [exampleBlock n2 b2]"
    using matchExamples_block [OF d2 hf(3)] by simp
  have m1: "matchExamples (exampleBlock n1 b1 @ exampleBlock n2 b2) =
      exampleBlock n1 b1 # matchExamples (exampleBlock n2 b2)"
    using matchExamples_block [OF d1 hf(2)] h2 by simp
  from matchExamples_skip [OF hf(1)] m1 m2 show ?thesis by simp
qed

lemma firstMatch_skip:
  assumes "\<And>c r. c \<in> set a \<Longrightarrow> f (c # r) = None"
  shows "firstMatch f (a @ rest) = firstMatch f rest"
  using assms by (induction a) simp_all

lemma lower_keywords:
  "js_toLowerCase ''Input:'' = ''input:''" "js_toLowerCase ''Output:'' = ''output:''"
  by (simp_all add: js_toLowerCase_def lowerChar_def)

lemma whitespace_lower: "isWhiteSpace c \<Longrightarrow> lowerChar c = c"
  by (auto simp: isWhiteSpace_def lowerChar_def)

lemma digit_lower: "isDigit c \<Longrightarrow> lowerChar c = c"
  by (auto simp: isDigit_def lowerChar_def Let_def)

lemma whitespace_not_letter:
  "isWhiteSpace c \<Longrightarrow> c \<noteq> CHR ''i'' \<and> c \<noteq> CHR ''o''"
  by (auto simp: isWhiteSpace_def)

lemma digit_not_letter: "isDigit c \<Longrightarrow> c \<noteq> CHR ''i'' \<and> c \<noteq> CHR ''o''"
  by (auto simp: isDigit_def)

lemma fieldAt_no_keyword: "\<not> ci_prefix kw t \<Longrightarrow> fieldAt kw t = None"
  by (simp add: fieldAt_def)

lemma fieldAt_keyword:
  assumes "ci_prefix kw t" and "dropWhile isWhiteSpace (drop (length kw) t) = rest"
    and "rest \<noteq> []"
  shows "fieldAt kw t = Some (takeWhile (\<lambda>c. \<not> isLineTerminator c) rest)"
  unfolding fieldAt_def Let_def
  by (simp only: assms if_True not_False_eq_True)

lemma fieldAt_Input_other: "lowerChar c \<noteq> CHR ''i'' \<Longrightarrow> fieldAt ''Input:'' (c # r) = None"
  by (rule fieldAt_no_keyword) (simp add: ci_prefix_def lower_keywords, simp add: js_toLowerCase_def)

lemma fieldAt_Output_other: "lowerChar c \<noteq> CHR ''o'' \<Longrightarrow> fieldAt ''Output:'' (c # r) = None"
  by (rule fieldAt_no_keyword) (simp add: ci_prefix_def lower_keywords, simp add: js_toLowerCase_def)

lemma example_word_chars:
  "c \<in> set ''Example :'' \<Longrightarrow> lowerChar c \<noteq> CHR ''i'' \<and> lowerChar c \<noteq> CHR ''o''"
  by (auto simp: lowerChar_def)

lemma input_word_chars: "c \<in> set ''Input:'' \<Longrightarrow> lowerChar c \<noteq> CHR ''o''"
  by (auto simp: lowerChar_def)

lemma header_chars:
  assumes "list_all isDigit ds" and "list_all isWhiteSpace w"
    and "c \<in> set ((''Example '' @ ds @ '':'') @ w)"
  shows "lowerChar c \<noteq> CHR ''i'' \<and> lowerChar c \<noteq> CHR ''o''"
proof -
  from assms(3) have "c \<in> set ''Example '' \<or> c \<in> set ds \<or> c \<in> set '':'' \<or> c \<in> set w"
    by (simp only: set_append Un_iff) blast
  then consider "c \<in> set ''Example :''" | "c \<in> set ds" | "c \<in> set w"
    by fastforce
  then show ?thesis
  proof cases
    case 1
    then show ?thesis by (rule example_word_chars)
  next
    case 2
    with assms(1) have "isDigit c" by (simp add: list_all_iff)
    then show ?thesis by (simp add: digit_lower digit_not_letter)
  next
    case 3
    with assms(2) have "isWhiteSpace c" by (simp add: list_all_iff)
    then show ?thesis by (simp add: whitespace_lower whitespace_not_letter)
  qed
qed

lemma prefix_blocked:
  assumes "\<not> prefix p xs" and "z \<notin> set p"
  shows "\<not> prefix p (xs @ z # ys)"
proof
  assume "prefix p (xs @ z # ys)"
  then consider "prefix p xs" | us where "p = xs @ us" "prefix us (z # ys)"
    by (auto simp: prefix_append)
  then show False
  proof cases
    case 1
    with assms(1) show False by simp
  next
    case 2
    show False
    proof (cases us)
      case Nil
      with 2 assms(1) show False by simp
    next
      case (Cons u us')
      with 2 have "u = z" by simp
      with 2 Cons assms(2) show False by simp
    qed
  qed
qed

lemma firstMatch_Output_through_value:
  assumes "\<not> js_includes (js_toLowerCase v) ''output:''" and "isWhiteSpace z"
  shows "firstMatch (fieldAt ''Output:'') (v @ z # rest) =
         firstMatch (fieldAt ''Output:'') (z # rest)"
  using assms(1)
proof (induction v)
  case Nil
  show ?case by simp
next
  case (Cons c v)
  from Cons.prems have np: "\<not> prefix ''output:'' (js_toLowerCase (c # v))"
    and nv: "\<not> js_includes (js_toLowerCase v) ''output:''"
    by (simp_all add: js_toLowerCase_def)
  have lf: "lowerChar z = z"
    by (rule whitespace_lower [OF assms(2)])
  have nz: "z \<notin> set ''output:''"
    using assms(2) by (auto simp: isWhiteSpace_def)
  have "\<not> prefix ''output:'' (js_toLowerCase (c # v) @ z # js_toLowerCase rest)"
    by (rule prefix_blocked [OF np nz])
  then have "\<not> ci_prefix ''Output:'' (c # v @ z # rest)"
    by (simp add: ci_prefix_def lower_keywords) (simp add: js_toLowerCase_def lf)
  then have "fieldAt ''Output:'' (c # v @ z # rest) = None"
    by (rule fieldAt_no_keyword)
  with Cons.IH [OF nv] show ?case by simp
qed

lemma fieldAt_value:
  assumes "list_all isWhiteSpace sp" and "valueLine v"
    and "tail = [] \<or> startsWithP isLineTerminator tail"
  shows "fieldAt kw (kw @ sp @ v @ tail) = Some v"
proof -
  from assms(2) obtain c v' where v: "v = c # v'" and c: "\<not> isWhiteSpace c"
    and nl: "\<forall>x \<in> set v. \<not> isLineTerminator x"
    by (cases v) (auto simp: valueLine_def startsWithP_def list_all_iff)
  from assms(1) have sp: "\<forall>x \<in> set sp. isWhiteSpace x"
    by (simp add: list_all_iff)
  have d: "dropWhile isWhiteSpace (drop (length kw) (kw @ sp @ v @ tail)) = v @ tail"
    using sp c by (simp add: dropWhile_append2 v)
  have t: "takeWhile (\<lambda>c. \<not> isLineTerminator c) (v @ tail) = v"
    using nl assms(3) by (cases tail) (auto simp: takeWhile_append2 startsWithP_def)
  have ne: "v @ tail \<noteq> []" by (simp add: v)
  have ci: "ci_prefix kw (kw @ sp @ v @ tail)"
    by (simp add: ci_prefix_def js_toLowerCase_def)
  from fieldAt_keyword [OF ci d ne] t show ?thesis by simp
qed

lemma fieldValue_Input_block:
  assumes "wellFormedBody e" and "list_all isDigit n"
  shows "fieldValue ''Input:'' (exampleBlock n (exampleBody e)) = js_trim (ex_input e)"
proof -
  let ?rest = "ex_sep e @ ''Output:'' @ ex_gap2 e @ ex_output e @ ex_tail e"
  let ?at = "''Input:'' @ ex_gap1 e @ ex_input e @ ?rest"
  from assms have wf: "list_all isWhiteSpace (ex_lead e)"
    "list_all isWhiteSpace (ex_gap1 e)" "valueLine (ex_input e)"
    "startsWithP isLineTerminator (ex_sep e)"
    by (simp_all add: wellFormedBody_def)
  have blk: "exampleBlock n (exampleBody e) = ((''Example '' @ n @ '':'') @ ex_lead e) @ ?at"
    by (simp add: exampleBlock_def exampleBody_def)
  have skip: "firstMatch (fieldAt ''Input:'') (exampleBlock n (exampleBody e)) =
      firstMatch (fieldAt ''Input:'') ?at"
    unfolding blk
    by (rule firstMatch_skip) (use header_chars [OF assms(2) wf(1)] fieldAt_Input_other in blast)
  have "startsWithP isLineTerminator ?rest"
    using wf(4) by (cases "ex_sep e") (simp_all add: startsWithP_def)
  then have "fieldAt ''Input:'' ?at = Some (ex_input e)"
    by (intro fieldAt_value [OF wf(2,3)] disjI2)
  then have "firstMatch (fieldAt ''Input:'') ?at = Some (ex_input e)"
    by simp
  with skip show ?thesis
    by (simp add: fieldValue_def)
qed

lemma fieldValue_Output_block:
  assumes "wellFormedBody e" and "list_all isDigit n"
  shows "fieldValue ''Output:'' (exampleBlock n (exampleBody e)) = js_trim (ex_output e)"
proof -
  let ?f = "fieldAt ''Output:''"
  let ?at = "''Output:'' @ ex_gap2 e @ ex_output e @ ex_tail e"
  from assms have wf: "list_all isWhiteSpace (ex_lead e)"
    "list_all isWhiteSpace (ex_gap1 e)" "list_all isWhiteSpace (ex_gap2 e)"
    "valueLine (ex_output e)" "\<not> js_includes (js_toLowerCase (ex_input e)) ''output:''"
    "ex_tail e = [] \<or> startsWithP isLineTerminator (ex_tail e)"
    "startsWithP isLineTerminator (ex_sep e)" "list_all isWhiteSpace (ex_sep e)"
    by (simp_all add: wellFormedBody_def)
  from wf(7,8) obtain z sp where sep: "ex_sep e = z # sp" and z: "isWhiteSpace z"
    by (cases "ex_sep e") (auto simp: startsWithP_def)
  have blk: "exampleBlock n (exampleBody e) =
      ((''Example '' @ n @ '':'') @ ex_lead e) @
      (''Input:'' @ (ex_gap1 e @ (ex_input e @ z # sp @ ?at)))"
    by (simp add: exampleBlock_def exampleBody_def sep)
  have 1: "firstMatch ?f (exampleBlock n (exampleBody e)) =
      firstMatch ?f (''Input:'' @ (ex_gap1 e @ (ex_input e @ z # sp @ ?at)))"
    unfolding blk
    by (rule firstMatch_skip) (use header_chars [OF assms(2) wf(1)] fieldAt_Output_other in blast)
  have 2: "firstMatch ?f (''Input:'' @ (ex_gap1 e @ (ex_input e @ z # sp @ ?at))) =
      firstMatch ?f (ex_gap1 e @ (ex_input e @ z # sp @ ?at))"
    by (rule firstMatch_skip) (use input_word_chars fieldAt_Output_other in blast)
  have ws: "lowerChar c \<noteq> CHR ''o''" if "isWhiteSpace c" for c
    using that by (simp add: whitespace_lower whitespace_not_letter)
  have ws1: "lowerChar c \<noteq> CHR ''o''" if "c \<in> set (ex_gap1 e)" for c
    using that wf(2) by (simp add: list_all_iff ws)
  have ws2: "lowerChar c \<noteq> CHR ''o''" if "c \<in> set (ex_sep e)" for c
    using that wf(8) by (simp add: list_all_iff ws)
  have 3: "firstMatch ?f (ex_gap1 e @ (ex_input e @ z # sp @ ?at)) =
      firstMatch ?f (ex_input e @ z # sp @ ?at)"
    by (rule firstMatch_skip) (use ws1 fieldAt_Output_other in blast)
  have 4: "firstMatch ?f (ex_input e @ z # sp @ ?at) = firstMatch ?f (z # sp @ ?at)"
    by (rule firstMatch_Output_through_value [OF wf(5) z])
  have "firstMatch ?f (ex_sep e @ ?at) = firstMatch ?f ?at"
    by (rule firstMatch_skip) (use ws2 fieldAt_Output_other in blast)
  then have 5: "firstMatch ?f (z # sp @ ?at) = firstMatch ?f ?at"
    by (simp only: sep append_Cons)
  have "?f ?at = Some (ex_output e)"
    by (rule fieldAt_value [OF wf(3,4,6)])
  then have 6: "firstMatch ?f ?at = Some (ex_output e)"
    by simp
  from 1 2 3 4 5 6 show ?thesis
    by (simp add: fieldValue_def)
qed

lemma js_trim_nonblank:
  assumes "c \<in> set t" and "\<not> isWhiteSpace c"
  shows "js_trim t \<noteq> []"
proof
  assume "js_trim t = []"
  then have all: "\<forall>x \<in> set (dropWhile isWhiteSpace t). isWhiteSpace x"
    by (simp add: js_trim_def dropWhile_eq_Nil_conv)
  show False
  proof (cases "dropWhile isWhiteSpace t")
    case Nil
    with assms show False by (simp add: dropWhile_eq_Nil_conv)
  next
    case (Cons y ys)
    then have "\<not> isWhiteSpace y" using hd_dropWhile [of isWhiteSpace t] by simp
    with all Cons show False by simp
  qed
qed

text \<open>
  C7, as the parser has it. Parsing a pasted problem text that contains exactly two
  example blocks (\<open>twoExampleText\<close>) yields a problem whose \<open>testCases\<close> has length 2:
  the first test case, with id 1, is read from the first block, the second, with
  id 2, from the second block, so the order of the text is kept. The input and the
  expected output of a test case are what the first match of \<open>/Input:\s*(.+)/i\<close> and
  of \<open>/Output:\s*(.+)/i\<close> in its block capture, trimmed (\<open>testCaseOf\<close>). They are the
  values of the example's Input and Output lines where the block is an \<open>Input:\<close> line
  followed by an \<open>Output:\<close> line, both with a value on the line, the input not
  containing \<open>output:\<close> (\<open>wellFormedBody\<close>).
\<close>

theorem paste_two_examples:
  assumes "twoExampleText pre n1 b1 n2 b2"
  shows "generateTestCases (pre @ exampleBlock n1 b1 @ exampleBlock n2 b2) =
      [testCaseOf 0 (exampleBlock n1 b1), testCaseOf 1 (exampleBlock n2 b2)] \<and>
    length (generateTestCases (pre @ exampleBlock n1 b1 @ exampleBlock n2 b2)) = 2 \<and>
    map tc_id (generateTestCases (pre @ exampleBlock n1 b1 @ exampleBlock n2 b2)) = [1, 2] \<and>
    (\<exists>p. handlePasteProblem (pre @ exampleBlock n1 b1 @ exampleBlock n2 b2) lvl = Some p \<and>
         testCases p = generateTestCases (pre @ exampleBlock n1 b1 @ exampleBlock n2 b2)) \<and>
    (wellFormedBody e1 \<and> b1 = exampleBody e1 \<longrightarrow>
       tc_input (testCaseOf 0 (exampleBlock n1 b1)) = js_trim (ex_input e1) \<and>
       expectedOutput (testCaseOf 0 (exampleBlock n1 b1)) = js_trim (ex_output e1)) \<and>
    (wellFormedBody e2 \<and> b2 = exampleBody e2 \<longrightarrow>
       tc_input (testCaseOf 1 (exampleBlock n2 b2)) = js_trim (ex_input e2) \<and>
       expectedOutput (testCaseOf 1 (exampleBlock n2 b2)) = js_trim (ex_output e2))"
proof -
  let ?t = "pre @ exampleBlock n1 b1 @ exampleBlock n2 b2"
  from assms have d: "list_all isDigit n1" "list_all isDigit n2"
    by (simp_all add: twoExampleText_def)
  have g: "generateTestCases ?t =
      [testCaseOf 0 (exampleBlock n1 b1), testCaseOf 1 (exampleBlock n2 b2)]"
    by (simp add: generateTestCases_def matchExamples_two [OF assms] testCaseOf_def)
  have "CHR ''E'' \<in> set ?t" by (simp add: exampleBlock_def)
  moreover have "\<not> isWhiteSpace (CHR ''E'')" by (simp add: isWhiteSpace_def)
  ultimately have "js_trim ?t \<noteq> []" by (rule js_trim_nonblank)
  then have p: "\<exists>p. handlePasteProblem ?t lvl = Some p \<and> testCases p = generateTestCases ?t"
    by (simp add: handlePasteProblem_def)
  have v1: "wellFormedBody e1 \<and> b1 = exampleBody e1 \<longrightarrow>
       tc_input (testCaseOf 0 (exampleBlock n1 b1)) = js_trim (ex_input e1) \<and>
       expectedOutput (testCaseOf 0 (exampleBlock n1 b1)) = js_trim (ex_output e1)"
    using fieldValue_Input_block [OF _ d(1), of e1] fieldValue_Output_block [OF _ d(1), of e1]
    by (simp add: testCaseOf_def)
  have v2: "wellFormedBody e2 \<and> b2 = exampleBody e2 \<longrightarrow>
       tc_input (testCaseOf 1 (exampleBlock n2 b2)) = js_trim (ex_input e2) \<and>
       expectedOutput (testCaseOf 1 (exampleBlock n2 b2)) = js_trim (ex_output e2)"
    using fieldValue_Input_block [OF _ d(2), of e2] fieldValue_Output_block [OF _ d(2), of e2]
    by (simp add: testCaseOf_def)
  from g p v1 v2 show ?thesis
    by (simp add: testCaseOf_def)
qed

text \<open>A pasted text with a title line, a description and two examples, the first
  with an explanation, the second with a line that ends in CR LF.\<close>

theorem paste_two_examples_witness:
  "twoExampleText pastedPre ''1'' (exampleBody pastedExample1) ''2'' (exampleBody pastedExample2) \<and>
   wellFormedBody pastedExample1 \<and> wellFormedBody pastedExample2 \<and>
   pastedPre @ exampleBlock ''1'' (exampleBody pastedExample1) @
     exampleBlock ''2'' (exampleBody pastedExample2) =
     ''Pair Sum\<newline>Given an array of integers, find two that add up to a target.\<newline>\<newline>Example 1:\<newline>Input: nums = [2,7,11,15], target = 9\<newline>Output: [0,1]\<newline>Explanation: Because nums[0] + nums[1] == 9.\<newline>\<newline>Example 2:\<newline>Input: nums = [3,2,4], target = 6'' @ CHR 0x0D # ''\<newline>Output: [1,2]  \<newline>'' \<and>
   map (\<lambda>tc. (tc_id tc, tc_input tc, expectedOutput tc))
     (generateTestCases
        (''Pair Sum\<newline>Given an array of integers, find two that add up to a target.\<newline>\<newline>Example 1:\<newline>Input: nums = [2,7,11,15], target = 9\<newline>Output: [0,1]\<newline>Explanation: Because nums[0] + nums[1] == 9.\<newline>\<newline>Example 2:\<newline>Input: nums = [3,2,4], target = 6'' @ CHR 0x0D # ''\<newline>Output: [1,2]  \<newline>'')) =
     [(1, ''nums = [2,7,11,15], target = 9'', ''[0,1]''),
      (2, ''nums = [3,2,4], target = 6'', ''[1,2]'')]"
proof -
  let ?b1 = "exampleBody pastedExample1" and ?b2 = "exampleBody pastedExample2"
  have ok: "twoExampleText pastedPre ''1'' ?b1 ''2'' ?b2"
    by code_simp
  have wf: "wellFormedBody pastedExample1" "wellFormedBody pastedExample2"
    by code_simp+
  have lit: "pastedPre @ exampleBlock ''1'' ?b1 @ exampleBlock ''2'' ?b2 =
     ''Pair Sum\<newline>Given an array of integers, find two that add up to a target.\<newline>\<newline>Example 1:\<newline>Input: nums = [2,7,11,15], target = 9\<newline>Output: [0,1]\<newline>Explanation: Because nums[0] + nums[1] == 9.\<newline>\<newline>Example 2:\<newline>Input: nums = [3,2,4], target = 6'' @ CHR 0x0D # ''\<newline>Output: [1,2]  \<newline>''"
    by (simp add: pastedPre_def pastedExample1_def pastedExample2_def exampleBlock_def exampleBody_def)
  have tr: "js_trim (ex_input pastedExample1) = ''nums = [2,7,11,15], target = 9''"
    "js_trim (ex_output pastedExample1) = ''[0,1]''"
    "js_trim (ex_input pastedExample2) = ''nums = [3,2,4], target = 6''"
    "js_trim (ex_output pastedExample2) = ''[1,2]''"
    by (simp_all add: pastedExample1_def pastedExample2_def js_trim_def isWhiteSpace_def)
  note th = paste_two_examples [OF ok, where ?e1.0 = pastedExample1 and ?e2.0 = pastedExample2]
  from th have g: "generateTestCases (pastedPre @ exampleBlock ''1'' ?b1 @ exampleBlock ''2'' ?b2) =
      [testCaseOf 0 (exampleBlock ''1'' ?b1), testCaseOf 1 (exampleBlock ''2'' ?b2)]"
    by blast
  from th wf have v:
    "tc_input (testCaseOf 0 (exampleBlock ''1'' ?b1)) = js_trim (ex_input pastedExample1)"
    "expectedOutput (testCaseOf 0 (exampleBlock ''1'' ?b1)) = js_trim (ex_output pastedExample1)"
    "tc_input (testCaseOf 1 (exampleBlock ''2'' ?b2)) = js_trim (ex_input pastedExample2)"
    "expectedOutput (testCaseOf 1 (exampleBlock ''2'' ?b2)) = js_trim (ex_output pastedExample2)"
    by blast+
  have ids: "tc_id (testCaseOf 0 (exampleBlock ''1'' ?b1)) = 1"
    "tc_id (testCaseOf 1 (exampleBlock ''2'' ?b2)) = 2"
    by (simp_all add: testCaseOf_def)
  have "map (\<lambda>tc. (tc_id tc, tc_input tc, expectedOutput tc))
      (generateTestCases (pastedPre @ exampleBlock ''1'' ?b1 @ exampleBlock ''2'' ?b2)) =
      [(1, ''nums = [2,7,11,15], target = 9'', ''[0,1]''),
       (2, ''nums = [3,2,4], target = 6'', ''[1,2]'')]"
    by (simp only: g list.map v ids tr)
  with ok wf show ?thesis
    by (simp only: lit)
qed

text \<open>
  Outside such blocks the claim fails. The patterns \<open>/Input:\s*(.+)/i\<close> and
  \<open>/Output:\s*(.+)/i\<close> take the first match in the block, and \<open>\s*\<close> runs over line
  breaks: in the first example below the input line mentions \<open>output:\<close>, and the
  expected output is taken from the Input line (\<open>sum\<close>, not \<open>6\<close>); in the second the
  Input line is blank, and the input is the whole Output line.
\<close>

theorem paste_field_counterexample:
  "twoExampleText ''Sum\<newline>''
     ''1'' ''\<newline>Input: n = 3, mode = output: sum\<newline>Output: 6\<newline>''
     ''2'' ''\<newline>Input: \<newline>Output: 5'' \<and>
   map (\<lambda>tc. (tc_id tc, tc_input tc, expectedOutput tc))
     (generateTestCases
        ''Sum\<newline>Example 1:\<newline>Input: n = 3, mode = output: sum\<newline>Output: 6\<newline>Example 2:\<newline>Input: \<newline>Output: 5'') =
     [(1, ''n = 3, mode = output: sum'', ''sum''), (2, ''Output: 5'', ''5'')]"
  by code_simp

end
